theory Spec2Isabelle
  imports Main "HOL-Library.Sublist" "HOL-Library.Multiset" "HOL-Library.List_Lexorder"
    "HOL-Library.Product_Lexorder"
begin

section \<open>Python strings\<close>

text \<open>
  A Python \<open>str\<close> is a sequence of Unicode code points; it is modelled as the list of
  their numbers. \<open>ascii\<close> turns an ASCII literal into such a list.
\<close>

type_synonym pystr = "nat list"

definition ascii :: "string \<Rightarrow> pystr" where
  "ascii s = map of_char s"

text \<open>
  \<open>old in s\<close> for strings: \<open>old\<close> occurs as a contiguous substring of \<open>s\<close>.
\<close>

fun py_in :: "pystr \<Rightarrow> pystr \<Rightarrow> bool" where
  "py_in old [] = (old = [])"
| "py_in old (c # cs) = (prefix old (c # cs) \<or> py_in old cs)"

text \<open>
  \<open>s.replace(old, new)\<close>: the non-overlapping occurrences of \<open>old\<close> are replaced from
  left to right; an empty \<open>old\<close> matches before every character and at the end.
\<close>

fun py_replace :: "pystr \<Rightarrow> pystr \<Rightarrow> pystr \<Rightarrow> pystr" where
  "py_replace [] new s = new @ concat (map (\<lambda>c. c # new) s)"
| "py_replace old new [] = []"
| "py_replace old new (c # cs) =
     (if prefix old (c # cs) then new @ py_replace old new (drop (length old) (c # cs))
      else c # py_replace old new cs)"

text \<open>
  \<open>unicodedata.normalize("NFD", s).encode("ascii", "ignore").decode("utf-8")\<close>.
  The canonical decomposition mapping of the Unicode Character Database is not part of
  the program; it is the parameter \<open>decomp\<close> (the full canonical decomposition of one
  code point). NFD decomposes every code point and then reorders combining marks only;
  ASCII code points have no decomposition and are never reordered, and the encoding step
  drops every code point from 128 on. So the result is, code point by code point, the
  ASCII part of the decomposition.
\<close>

definition nfd_ascii :: "(nat \<Rightarrow> pystr) \<Rightarrow> pystr \<Rightarrow> pystr" where
  "nfd_ascii decomp s =
     concat (map (\<lambda>c. if c < 128 then [c] else filter (\<lambda>d. d < 128) (decomp c)) s)"

text \<open>\<open>str.lower()\<close> on one ASCII code point (the string is ASCII after the step above).\<close>

definition lower :: "nat \<Rightarrow> nat" where
  "lower c = (if 65 \<le> c \<and> c \<le> 90 then c + 32 else c)"

text \<open>The character class \<open>[a-z0-9]\<close>.\<close>

definition is_alnum :: "nat \<Rightarrow> bool" where
  "is_alnum c = ((97 \<le> c \<and> c \<le> 122) \<or> (48 \<le> c \<and> c \<le> 57))"

text \<open>
  Python's whitespace (\<open>\s\<close> in a \<open>str\<close> pattern, and what \<open>strip()\<close> removes).
\<close>

definition is_space :: "nat \<Rightarrow> bool" where
  "is_space c = ((9 \<le> c \<and> c \<le> 13) \<or> (28 \<le> c \<and> c \<le> 32) \<or> c = 133 \<or> c = 160
     \<or> c = 5760 \<or> (8192 \<le> c \<and> c \<le> 8202) \<or> c = 8232 \<or> c = 8233 \<or> c = 8239
     \<or> c = 8287 \<or> c = 12288)"

text \<open>
  \<open>re.sub(r"[C]+", " ", s)\<close> for a character class \<open>C\<close>: every maximal run of characters
  of the class becomes one space.
\<close>

function re_sub_runs :: "(nat \<Rightarrow> bool) \<Rightarrow> pystr \<Rightarrow> pystr" where
  "re_sub_runs C [] = []"
| "re_sub_runs C (c # cs) =
     (if C c then 32 # re_sub_runs C (dropWhile C cs) else c # re_sub_runs C cs)"
  by pat_completeness auto
termination
  by (relation "measure (\<lambda>(C, s). length s)") (auto simp: length_dropWhile_le le_imp_less_Suc)

definition py_strip :: "pystr \<Rightarrow> pystr" where
  "py_strip s = rev (dropWhile is_space (rev (dropWhile is_space s)))"

section \<open>Text normalizer\<close>

text \<open>
  \<open>normalizar_texto_para_comparacao\<close>, step by step as the source applies them; the
  argument is \<open>None\<close> or a string.
\<close>

definition normalizar_texto_para_comparacao :: "(nat \<Rightarrow> pystr) \<Rightarrow> pystr option \<Rightarrow> pystr" where
  "normalizar_texto_para_comparacao decomp texto =
     (case texto of
        None \<Rightarrow> []
      | Some t0 \<Rightarrow>
          (let t1 = py_replace (ascii ''&nbsp;'') (ascii '' '') t0;
               t2 = py_replace [8211] (ascii ''-'') t1;
               t3 = py_replace [170] [] (py_replace [186] [] t2);
               t4 = nfd_ascii decomp t3;
               t5 = map lower t4;
               t6 = re_sub_runs (\<lambda>c. \<not> is_alnum c) t5
           in py_strip (re_sub_runs is_space t6)))"

text \<open>
  The canonical decompositions of the Latin-1 letters (U+00C0 to U+00FF), an excerpt of
  the Unicode Character Database used to evaluate the normalizer on concrete labels;
  code points outside the excerpt are left alone.
\<close>

definition latin1_table :: "(nat \<times> pystr) list" where
  "latin1_table =
     [(192, [65, 768]), (193, [65, 769]), (194, [65, 770]), (195, [65, 771]),
      (196, [65, 776]), (197, [65, 778]), (199, [67, 807]), (200, [69, 768]),
      (201, [69, 769]), (202, [69, 770]), (203, [69, 776]), (204, [73, 768]),
      (205, [73, 769]), (206, [73, 770]), (207, [73, 776]), (209, [78, 771]),
      (210, [79, 768]), (211, [79, 769]), (212, [79, 770]), (213, [79, 771]),
      (214, [79, 776]), (217, [85, 768]), (218, [85, 769]), (219, [85, 770]),
      (220, [85, 776]), (221, [89, 769]),
      (224, [97, 768]), (225, [97, 769]), (226, [97, 770]), (227, [97, 771]),
      (228, [97, 776]), (229, [97, 778]), (231, [99, 807]), (232, [101, 768]),
      (233, [101, 769]), (234, [101, 770]), (235, [101, 776]), (236, [105, 768]),
      (237, [105, 769]), (238, [105, 770]), (239, [105, 776]), (241, [110, 771]),
      (242, [111, 768]), (243, [111, 769]), (244, [111, 770]), (245, [111, 771]),
      (246, [111, 776]), (249, [117, 768]), (250, [117, 769]), (251, [117, 770]),
      (252, [117, 776]), (253, [121, 769]), (255, [121, 776])]"

definition latin1_decomp :: "nat \<Rightarrow> pystr" where
  "latin1_decomp c = (case map_of latin1_table c of Some d \<Rightarrow> d | None \<Rightarrow> [c])"

section \<open>The page as the WebDriver shows it\<close>

text \<open>
  Selenium raises \<open>NoSuchElementException\<close> when a lookup finds nothing; every other
  exception is \<open>OtherException\<close> (a subclass of \<open>Exception\<close> that the handlers of the
  program tell apart only as "not \<open>NoSuchElementException\<close>").
\<close>

datatype exn = NoSuchElementException | OtherException

text \<open>
  An element of the page: its tag name, its CSS classes, the text \<open>element.text\<close> returns,
  its XPath string-value, its \<open>href\<close> attribute (\<open>None\<close> when absent), whether a WebDriver
  command on it fails (a stale reference, say), and its child elements in document order.
\<close>

datatype node =
  Node (tag: string) (cls: "string list") (etext: pystr) (strval: pystr)
    (href: "pystr option") (faulty: bool) (kids: "node list")

text \<open>
  A \<open>WebElement\<close> handle: the node, its following siblings, and the following siblings
  of its parent (what the XPath axes of the program can reach from it).
\<close>

record element =
  el :: node
  fsibs :: "node list"
  parent_fsibs :: "node list"

text \<open>\<open>element.text\<close> and \<open>element.get_attribute("href")\<close>.\<close>

definition node_text :: "node \<Rightarrow> exn + pystr" where
  "node_text n = (if faulty n then Inl OtherException else Inr (etext n))"

definition get_href :: "node \<Rightarrow> exn + pystr option" where
  "get_href n = (if faulty n then Inl OtherException else Inr (href n))"

text \<open>The elements below a list of siblings, in document order, each with its handle.\<close>

fun walk :: "node list \<Rightarrow> node list \<Rightarrow> element list" where
  "walk [] pf = []"
| "walk (Node t c x s h f ks # ns) pf =
     \<lparr>el = Node t c x s h f ks, fsibs = ns, parent_fsibs = pf\<rparr> # walk ks ns @ walk ns pf"

definition descendants :: "element \<Rightarrow> element list" where
  "descendants e = walk (kids (el e)) (fsibs e)"

text \<open>\<open>container.find_elements(By.CSS_SELECTOR, "p.callout")\<close>.\<close>

definition is_p_callout :: "node \<Rightarrow> bool" where
  "is_p_callout n = (tag n = ''p'' \<and> ''callout'' \<in> set (cls n))"

definition callouts :: "element \<Rightarrow> element list" where
  "callouts e = filter (\<lambda>d. is_p_callout (el d)) (descendants e)"

definition find_elements_p_callout :: "element \<Rightarrow> exn + element list" where
  "find_elements_p_callout e = (if faulty (el e) then Inl OtherException else Inr (callouts e))"

text \<open>
  The combined XPath of the link search,
  \<open>./following-sibling::ul//a | ./following-sibling::div//a |
    ./parent::*/following-sibling::ul//a | ./parent::*/following-sibling::div//a\<close>.
  Each of the four paths selects the \<open>a\<close> descendants of the siblings with one tag name.
  A selected anchor is paired with its position: 0 for the siblings of the callout and 1
  for those of its parent, the index of the sibling, and the index of the anchor among
  the anchors of that sibling. \<open>|\<close> is the union of node-sets, which \<open>find_elements\<close> returns
  in document order: the order of the positions.
\<close>

type_synonym pos = "nat \<times> nat \<times> nat"

definition anchors :: "node \<Rightarrow> node list" where
  "anchors s = filter (\<lambda>n. tag n = ''a'') (map el (walk (kids s) []))"

definition probe :: "nat \<Rightarrow> string \<Rightarrow> node list \<Rightarrow> (pos \<times> node) list" where
  "probe r t sibs =
     concat (map (\<lambda>(i, s). if tag s = t
                             then map (\<lambda>(j, a). ((r, i, j), a)) (enumerate 0 (anchors s))
                             else [])
                 (enumerate 0 sibs))"

definition xpath_union :: "(pos \<times> node) list list \<Rightarrow> node list" where
  "xpath_union ps = map snd (sort_key fst (remdups (concat ps)))"

definition find_elements_xpath_links :: "element \<Rightarrow> exn + node list" where
  "find_elements_xpath_links e =
     (if faulty (el e) then Inl OtherException
      else Inr (xpath_union [probe 0 ''ul'' (fsibs e), probe 0 ''div'' (fsibs e),
                             probe 1 ''ul'' (parent_fsibs e), probe 1 ''div'' (parent_fsibs e)]))"

text \<open>
  The harvest as the specification words it: the four probes concatenated, list
  siblings before block siblings and callout siblings before parent siblings.
\<close>

definition harvest_spec :: "element \<Rightarrow> node list" where
  "harvest_spec e =
     map snd (probe 0 ''ul'' (fsibs e) @ probe 0 ''div'' (fsibs e)
              @ probe 1 ''ul'' (parent_fsibs e) @ probe 1 ''div'' (parent_fsibs e))"

text \<open>
  The anchors below the siblings that are lists or blocks, sibling by sibling.
\<close>

definition sibling_links :: "node list \<Rightarrow> node list" where
  "sibling_links sibs =
     concat (map (\<lambda>s. if tag s = ''ul'' \<or> tag s = ''div'' then anchors s else []) sibs)"

text \<open>
  \<open>container.find_element(By.XPATH, ".//a[contains(., 'Tema da Redacao')]")\<close> (the label
  is written with c-cedilla and a-tilde in the source): the first \<open>a\<close> descendant whose
  string-value contains the label.
\<close>

definition tema_label :: pystr where
  "tema_label = ascii ''Tema da Reda'' @ [231, 227] @ ascii ''o''"

definition tema_anchors :: "element \<Rightarrow> node list" where
  "tema_anchors e =
     filter (\<lambda>n. tag n = ''a'' \<and> py_in tema_label (strval n)) (map el (descendants e))"

definition find_element_tema :: "element \<Rightarrow> exn + node" where
  "find_element_tema e =
     (if faulty (el e) then Inl OtherException
      else (case tema_anchors e of
              [] \<Rightarrow> Inl NoSuchElementException
            | a # _ \<Rightarrow> Inr a))"

section \<open>Link records and the report list\<close>

record link =
  ano :: pystr
  tipo :: pystr
  url :: "pystr option"

text \<open>
  The entries the program appends to the global list \<open>REPORTS\<close>, one constructor for each
  message of the source (with the description, the keywords, the year or the file the
  message names).
\<close>

datatype report =
    LinkProvaNotFound pystr pystr
  | LinkGabaritoNotFound pystr pystr
  | PatternNotFound pystr "pystr list" pystr
  | UnexpectedError pystr "pystr list" pystr
  | TemaNotFound pystr
  | ContainerNotFound pystr
  | YearError pystr
  | TabsNotFound
  | YearsError
  | DownloadExhausted pystr int
  | DownloadRequestError pystr
  | DownloadGenericError pystr

section \<open>Extraction of one document group\<close>

text \<open>Python truth of a value that is \<open>None\<close> or a string.\<close>

definition truthy :: "pystr option \<Rightarrow> bool" where
  "truthy v = (v \<noteq> None \<and> v \<noteq> Some [])"

text \<open>The loop over the callouts (lines 223 to 234): the first match ends it.\<close>

definition matches :: "(nat \<Rightarrow> pystr) \<Rightarrow> pystr list \<Rightarrow> pystr \<Rightarrow> bool" where
  "matches decomp keywords_to_match raw_text =
     list_all (\<lambda>keyword. py_in keyword (normalizar_texto_para_comparacao decomp (Some raw_text)))
       keywords_to_match"

fun find_callout :: "(nat \<Rightarrow> pystr) \<Rightarrow> pystr list \<Rightarrow> element list \<Rightarrow> exn + element option" where
  "find_callout decomp kws [] = Inr None"
| "find_callout decomp kws (e # es) =
     (case node_text (el e) of
        Inl x \<Rightarrow> Inl x
      | Inr raw_text \<Rightarrow>
          if matches decomp kws raw_text then Inr (Some e) else find_callout decomp kws es)"

text \<open>
  Lines 219 to 239: the callouts of the container, the loop, and the
  \<open>NoSuchElementException\<close> the program raises itself when the loop found nothing.
\<close>

definition locate_callout :: "(nat \<Rightarrow> pystr) \<Rightarrow> element \<Rightarrow> pystr list \<Rightarrow> exn + element" where
  "locate_callout decomp container kws =
     (case find_elements_p_callout container of
        Inl x \<Rightarrow> Inl x
      | Inr callout_elements \<Rightarrow>
          (case find_callout decomp kws callout_elements of
             Inl x \<Rightarrow> Inl x
           | Inr None \<Rightarrow> Inl NoSuchElementException
           | Inr (Some found_callout) \<Rightarrow> Inr found_callout))"

text \<open>
  One turn of the loop over the harvested anchors (lines 268 to 272): the \<open>if\<close> and its
  \<open>elif\<close>, on the two variables \<open>prova_link_found\<close> and \<open>gabarito_link_found\<close>.
\<close>

definition assign_link ::
  "(nat \<Rightarrow> pystr) \<Rightarrow> node \<Rightarrow> pystr option \<Rightarrow> pystr option \<Rightarrow> exn + (pystr option \<times> pystr option)" where
  "assign_link decomp a p g =
     (case node_text a of
        Inl x \<Rightarrow> Inl x
      | Inr raw \<Rightarrow>
          (let t = normalizar_texto_para_comparacao decomp (Some raw) in
           if py_in (ascii ''prova'') t \<and> \<not> truthy p then
             (case get_href a of Inl x \<Rightarrow> Inl x | Inr h \<Rightarrow> Inr (h, g))
           else if py_in (ascii ''gabarito'') t \<and> \<not> truthy g then
             (case get_href a of Inl x \<Rightarrow> Inl x | Inr h \<Rightarrow> Inr (p, h))
           else Inr (p, g)))"

text \<open>The loop (lines 267 to 275), with its \<open>break\<close> once both variables are set.\<close>

fun classify_loop ::
  "(nat \<Rightarrow> pystr) \<Rightarrow> node list \<Rightarrow> pystr option \<Rightarrow> pystr option \<Rightarrow> exn + (pystr option \<times> pystr option)" where
  "classify_loop decomp [] p g = Inr (p, g)"
| "classify_loop decomp (a # as) p g =
     (case assign_link decomp a p g of
        Inl x \<Rightarrow> Inl x
      | Inr (p', g') \<Rightarrow>
          if truthy p' \<and> truthy g' then Inr (p', g') else classify_loop decomp as p' g')"

text \<open>
  Lines 277 to 303: the exam record or its report, then the answer-key record or its
  report.
\<close>

definition prova_record :: "pystr \<Rightarrow> pystr \<Rightarrow> pystr option \<Rightarrow> link" where
  "prova_record y tipo_base p = \<lparr>ano = y, tipo = tipo_base @ ascii ''_prova_azul'', url = p\<rparr>"

definition gabarito_record :: "pystr \<Rightarrow> pystr \<Rightarrow> pystr option \<Rightarrow> link" where
  "gabarito_record y tipo_base g = \<lparr>ano = y, tipo = tipo_base @ ascii ''_gabarito_azul'', url = g\<rparr>"

definition emit ::
  "pystr option \<Rightarrow> pystr option \<Rightarrow> pystr \<Rightarrow> pystr \<Rightarrow> pystr \<Rightarrow> report list \<Rightarrow> link list \<times> report list" where
  "emit p g description y tipo_base REPORTS =
     (let (links1, R1) = (if truthy p then ([prova_record y tipo_base p], REPORTS)
                          else ([], REPORTS @ [LinkProvaNotFound description y]))
      in if truthy g then (links1 @ [gabarito_record y tipo_base g], R1)
         else (links1, R1 @ [LinkGabaritoNotFound description y]))"

text \<open>The link classifier: lines 264 to 303.\<close>

definition classify_links ::
  "(nat \<Rightarrow> pystr) \<Rightarrow> node list \<Rightarrow> pystr \<Rightarrow> pystr \<Rightarrow> pystr \<Rightarrow> report list
     \<Rightarrow> exn + (link list \<times> report list)" where
  "classify_links decomp all_links description y tipo_base REPORTS =
     (case classify_loop decomp all_links None None of
        Inl x \<Rightarrow> Inl x
      | Inr (p, g) \<Rightarrow> Inr (emit p g description y tipo_base REPORTS))"

text \<open>
  \<open>_extrair_prova_gabarito_links\<close>: the body of its \<open>try\<close>, then its two handlers. The
  result pairs what the call returns (or the exception that leaves it) with \<open>REPORTS\<close>
  after the call.
\<close>

definition extrair_try ::
  "(nat \<Rightarrow> pystr) \<Rightarrow> element \<Rightarrow> pystr \<Rightarrow> pystr list \<Rightarrow> pystr \<Rightarrow> pystr \<Rightarrow> report list
     \<Rightarrow> exn + (link list \<times> report list)" where
  "extrair_try decomp container description kws y tipo_base REPORTS =
     (case locate_callout decomp container kws of
        Inl x \<Rightarrow> Inl x
      | Inr found_callout \<Rightarrow>
          (case find_elements_xpath_links found_callout of
             Inl x \<Rightarrow> Inl x
           | Inr all_links \<Rightarrow> classify_links decomp all_links description y tipo_base REPORTS))"

definition extrair_prova_gabarito_links ::
  "(nat \<Rightarrow> pystr) \<Rightarrow> element \<Rightarrow> pystr \<Rightarrow> pystr list \<Rightarrow> pystr \<Rightarrow> pystr \<Rightarrow> report list
     \<Rightarrow> (exn + link list) \<times> report list" where
  "extrair_prova_gabarito_links decomp container description kws y tipo_base REPORTS =
     (case extrair_try decomp container description kws y tipo_base REPORTS of
        Inr (links, R) \<Rightarrow> (Inr links, R)
      | Inl NoSuchElementException \<Rightarrow> (Inr [], REPORTS @ [PatternNotFound description kws y])
      | Inl OtherException \<Rightarrow> (Inr [], REPORTS @ [UnexpectedError description kws y]))"

section \<open>Extraction of all document groups of one year\<close>

text \<open>
  The arguments of the six calls of \<open>_extrair_prova_gabarito_links\<close>: the description for
  the log, the keywords, and the base of the record's \<open>tipo\<close>.
\<close>

record category =
  description :: pystr
  keywords_to_match :: "pystr list"
  tipo_base :: pystr

definition aplicacao :: pystr where
  "aplicacao = ascii ''Aplica'' @ [231, 227] @ ascii ''o''"

definition reaplicacao_ppl :: pystr where
  "reaplicacao_ppl = ascii ''Reaplica'' @ [231, 227] @ ascii ''o/PPL''"

definition regular_d1 :: category where
  "regular_d1 =
     \<lparr>description = ascii ''1'' @ [186] @ ascii '' Dia - Caderno 1 - Azul - '' @ aplicacao @ ascii '' Regular'',
      keywords_to_match = [ascii ''1 dia'', ascii ''caderno 1'', ascii ''azul'', ascii ''aplicacao regular''],
      tipo_base = ascii ''regular_d1''\<rparr>"

definition regular_d2 :: category where
  "regular_d2 =
     \<lparr>description = ascii ''2'' @ [186] @ ascii '' Dia - Caderno 7 - Azul - '' @ aplicacao @ ascii '' Regular'',
      keywords_to_match = [ascii ''2 dia'', ascii ''caderno 7'', ascii ''azul'', ascii ''aplicacao regular''],
      tipo_base = ascii ''regular_d2''\<rparr>"

definition digital_d1 :: category where
  "digital_d1 =
     \<lparr>description = ascii ''1'' @ [186] @ ascii '' Dia - Caderno Azul - '' @ aplicacao @ ascii '' Digital'',
      keywords_to_match = [ascii ''1 dia'', ascii ''caderno'', ascii ''azul'', ascii ''aplicacao digital''],
      tipo_base = ascii ''digital_d1''\<rparr>"

definition digital_d2 :: category where
  "digital_d2 =
     \<lparr>description = ascii ''2'' @ [186] @ ascii '' Dia - Caderno Azul - '' @ aplicacao @ ascii '' Digital'',
      keywords_to_match = [ascii ''2 dia'', ascii ''caderno'', ascii ''azul'', ascii ''aplicacao digital''],
      tipo_base = ascii ''digital_d2''\<rparr>"

definition reaplicacao_d1 :: category where
  "reaplicacao_d1 =
     \<lparr>description = ascii ''1'' @ [186] @ ascii '' Dia - Caderno 1 - Azul - '' @ reaplicacao_ppl,
      keywords_to_match = [ascii ''1 dia'', ascii ''caderno 1'', ascii ''azul'', ascii ''reaplicacao ppl''],
      tipo_base = ascii ''reaplicacao_d1''\<rparr>"

definition reaplicacao_d2 :: category where
  "reaplicacao_d2 =
     \<lparr>description = ascii ''2'' @ [186] @ ascii '' Dia - Caderno 7 - Azul - '' @ reaplicacao_ppl,
      keywords_to_match = [ascii ''2 dia'', ascii ''caderno 7'', ascii ''azul'', ascii ''reaplicacao ppl''],
      tipo_base = ascii ''reaplicacao_d2''\<rparr>"

text \<open>
  The state the statements of the \<open>try\<close> block work on: the local \<open>links_encontrados\<close> and
  the global \<open>REPORTS\<close>. A statement returns the exception it raises, if any, and the state
  it leaves.
\<close>

type_synonym acc = "link list \<times> report list"

text \<open>\<open>links_encontrados.extend(_extrair_prova_gabarito_links(...))\<close>.\<close>

definition extend_step ::
  "(nat \<Rightarrow> pystr) \<Rightarrow> element \<Rightarrow> pystr \<Rightarrow> category \<Rightarrow> acc \<Rightarrow> exn option \<times> acc" where
  "extend_step decomp container y cat =
     (\<lambda>(links_encontrados, REPORTS).
        case extrair_prova_gabarito_links decomp container (description cat) (keywords_to_match cat) y
               (tipo_base cat) REPORTS of
          (Inr new, R) \<Rightarrow> (None, (links_encontrados @ new, R))
        | (Inl x, R) \<Rightarrow> (Some x, (links_encontrados, R)))"

text \<open>
  The essay theme (lines 387 to 402): the \<open>try\<close> looks the anchor up and reads its
  \<open>href\<close>; its only handler is for \<open>NoSuchElementException\<close>.
\<close>

definition tema_try :: "element \<Rightarrow> pystr \<Rightarrow> exn + link" where
  "tema_try container y =
     (case find_element_tema container of
        Inl x \<Rightarrow> Inl x
      | Inr tema_redacao_link_element \<Rightarrow>
          (case get_href tema_redacao_link_element of
             Inl x \<Rightarrow> Inl x
           | Inr h \<Rightarrow> Inr \<lparr>ano = y, tipo = ascii ''reaplicacao_redacao'', url = h\<rparr>))"

definition tema_step :: "element \<Rightarrow> pystr \<Rightarrow> acc \<Rightarrow> exn option \<times> acc" where
  "tema_step container y =
     (\<lambda>(links_encontrados, REPORTS).
        case tema_try container y of
          Inr l \<Rightarrow> (None, (links_encontrados @ [l], REPORTS))
        | Inl NoSuchElementException \<Rightarrow> (None, (links_encontrados, REPORTS @ [TemaNotFound y]))
        | Inl OtherException \<Rightarrow> (Some OtherException, (links_encontrados, REPORTS)))"

text \<open>
  The statements of the \<open>try\<close> block of \<open>extrair_links_provas_e_gabaritos\<close> after the
  container lookup, in the order of the source (lines 337 to 426).
\<close>

definition try_block :: "(nat \<Rightarrow> pystr) \<Rightarrow> element \<Rightarrow> pystr \<Rightarrow> (acc \<Rightarrow> exn option \<times> acc) list" where
  "try_block decomp container y =
     [extend_step decomp container y regular_d1,
      extend_step decomp container y regular_d2,
      extend_step decomp container y digital_d1,
      extend_step decomp container y digital_d2,
      tema_step container y,
      extend_step decomp container y reaplicacao_d1,
      extend_step decomp container y reaplicacao_d2]"

text \<open>Statements run in sequence; the first exception ends the block.\<close>

fun run_steps :: "(acc \<Rightarrow> exn option \<times> acc) list \<Rightarrow> acc \<Rightarrow> exn option \<times> acc" where
  "run_steps [] s = (None, s)"
| "run_steps (f # fs) s =
     (case f s of
        (None, s') \<Rightarrow> run_steps fs s'
      | (Some x, s') \<Rightarrow> (Some x, s'))"

text \<open>
  \<open>extrair_links_provas_e_gabaritos\<close>. \<open>driver\<close> gives, for a year, the outcome of
  \<open>driver.find_element\<close> for the tab content of that year. The two handlers of the
  function catch whatever the block raises; the function then returns
  \<open>links_encontrados\<close>.
\<close>

definition extrair_links_provas_e_gabaritos ::
  "(nat \<Rightarrow> pystr) \<Rightarrow> (pystr \<Rightarrow> exn + element) \<Rightarrow> pystr \<Rightarrow> report list
     \<Rightarrow> (exn + link list) \<times> report list" where
  "extrair_links_provas_e_gabaritos decomp driver y REPORTS =
     (case driver y of
        Inl NoSuchElementException \<Rightarrow> (Inr [], REPORTS @ [ContainerNotFound y])
      | Inl OtherException \<Rightarrow> (Inr [], REPORTS @ [YearError y])
      | Inr container_ano \<Rightarrow>
          (case run_steps (try_block decomp container_ano y) ([], REPORTS) of
             (None, (links_encontrados, R)) \<Rightarrow> (Inr links_encontrados, R)
           | (Some NoSuchElementException, (links_encontrados, R)) \<Rightarrow>
               (Inr links_encontrados, R @ [ContainerNotFound y])
           | (Some OtherException, (links_encontrados, R)) \<Rightarrow>
               (Inr links_encontrados, R @ [YearError y])))"

text \<open>
  The values of \<open>tipo\<close> in the order in which the source can append them, and in the
  order of the specification's catalog (essay theme last).
\<close>

definition tipos_of :: "category \<Rightarrow> pystr list" where
  "tipos_of cat = [tipo_base cat @ ascii ''_prova_azul'', tipo_base cat @ ascii ''_gabarito_azul'']"

definition source_tipo_order :: "pystr list" where
  "source_tipo_order =
     tipos_of regular_d1 @ tipos_of regular_d2 @ tipos_of digital_d1 @ tipos_of digital_d2
     @ [ascii ''reaplicacao_redacao''] @ tipos_of reaplicacao_d1 @ tipos_of reaplicacao_d2"

definition spec_tipo_order :: "pystr list" where
  "spec_tipo_order =
     tipos_of regular_d1 @ tipos_of regular_d2 @ tipos_of digital_d1 @ tipos_of digital_d2
     @ tipos_of reaplicacao_d1 @ tipos_of reaplicacao_d2 @ [ascii ''reaplicacao_redacao'']"

text \<open>
  What one group contributes when it is processed on its own, starting from an empty
  \<open>REPORTS\<close>: the records and the reports of a call of the helper for a category, and
  those of the essay-theme lookup.
\<close>

definition category_links :: "(nat \<Rightarrow> pystr) \<Rightarrow> element \<Rightarrow> pystr \<Rightarrow> category \<Rightarrow> link list" where
  "category_links decomp container y cat =
     (case fst (extrair_prova_gabarito_links decomp container (description cat)
                  (keywords_to_match cat) y (tipo_base cat) []) of
        Inr ls \<Rightarrow> ls
      | Inl x \<Rightarrow> [])"

definition category_reports :: "(nat \<Rightarrow> pystr) \<Rightarrow> element \<Rightarrow> pystr \<Rightarrow> category \<Rightarrow> report list" where
  "category_reports decomp container y cat =
     snd (extrair_prova_gabarito_links decomp container (description cat)
            (keywords_to_match cat) y (tipo_base cat) [])"

definition tema_links :: "element \<Rightarrow> pystr \<Rightarrow> link list" where
  "tema_links container y = (case tema_try container y of Inr l \<Rightarrow> [l] | Inl x \<Rightarrow> [])"

definition tema_reports :: "element \<Rightarrow> pystr \<Rightarrow> report list" where
  "tema_reports container y =
     (case tema_try container y of
        Inl NoSuchElementException \<Rightarrow> [TemaNotFound y]
      | Inl OtherException \<Rightarrow> []
      | Inr l \<Rightarrow> [])"

section \<open>Downloader\<close>

text \<open>
  What one attempt (the request and the write of the file, inside the \<open>try\<close>) ends in:
  no exception, a \<open>ConnectionError\<close> or \<open>Timeout\<close>, another \<open>RequestException\<close>, or any
  other \<open>Exception\<close>.
\<close>

datatype outcome = Downloaded | ConnectionErrorOrTimeout | RequestException | OtherFailure

text \<open>
  The effects of a call: how many requests were made, the arguments of the calls of
  \<open>time.sleep\<close> in order, and \<open>REPORTS\<close>.
\<close>

record download =
  attempts :: nat
  sleeps :: "int list"
  reports :: "report list"

text \<open>
  The \<open>for attempt in range(max_retries)\<close> loop of \<open>baixar_arquivo\<close>, from \<open>attempt\<close> on;
  \<open>get n\<close> is the outcome of the attempt numbered \<open>n\<close> (from 0). The boolean is the value
  returned.
\<close>

function baixar_loop ::
  "(nat \<Rightarrow> outcome) \<Rightarrow> pystr \<Rightarrow> int \<Rightarrow> int \<Rightarrow> nat \<Rightarrow> download \<Rightarrow> bool \<times> download" where
  "baixar_loop get dest max_retries delay attempt st =
     (if int attempt < max_retries then
        (let st1 = st\<lparr>attempts := attempts st + 1\<rparr> in
         case get attempt of
           Downloaded \<Rightarrow> (True, st1)
         | ConnectionErrorOrTimeout \<Rightarrow>
             if int attempt < max_retries - 1
             then baixar_loop get dest max_retries delay (attempt + 1)
                    (st1\<lparr>sleeps := sleeps st1 @ [delay]\<rparr>)
             else baixar_loop get dest max_retries delay (attempt + 1)
                    (st1\<lparr>reports := reports st1 @ [DownloadExhausted dest max_retries]\<rparr>)
         | RequestException \<Rightarrow> (False, st1\<lparr>reports := reports st1 @ [DownloadRequestError dest]\<rparr>)
         | OtherFailure \<Rightarrow> (False, st1\<lparr>reports := reports st1 @ [DownloadGenericError dest]\<rparr>))
      else (False, st))"
  by pat_completeness auto
termination
  by (relation "measure (\<lambda>(get, dest, max_retries, delay, attempt, st). nat (max_retries - int attempt))")
    auto

definition baixar_arquivo ::
  "(nat \<Rightarrow> outcome) \<Rightarrow> pystr \<Rightarrow> int \<Rightarrow> int \<Rightarrow> report list \<Rightarrow> bool \<times> download" where
  "baixar_arquivo get dest max_retries delay REPORTS =
     baixar_loop get dest max_retries delay 0 \<lparr>attempts = 0, sleeps = [], reports = REPORTS\<rparr>"

section \<open>Years\<close>

text \<open>
  \<open>obter_anos_disponiveis\<close>. The argument is the outcome of \<open>driver.find_elements\<close> for the
  year tabs and, for each tab, the outcome of \<open>tab.get_attribute("data-id")\<close> (\<open>None\<close> when
  the attribute is absent).
\<close>

fun collect_anos :: "(exn + pystr option) list \<Rightarrow> pystr list \<Rightarrow> exn + pystr list" where
  "collect_anos [] anos = Inr anos"
| "collect_anos (tab # tabs) anos =
     (case tab of
        Inl x \<Rightarrow> Inl x
      | Inr a \<Rightarrow>
          if truthy a \<and> a \<noteq> Some (ascii ''Sobre'') then collect_anos tabs (anos @ [the a])
          else collect_anos tabs anos)"

text \<open>
  \<open>sorted(anos, reverse=True)\<close>: strings compare by code points, lexicographically. Equal
  strings are the same value, so reversing the ascending sort gives the same list.
\<close>

definition sorted_reverse :: "pystr list \<Rightarrow> pystr list" where
  "sorted_reverse anos = rev (sort anos)"

definition obter_anos_disponiveis ::
  "(exn + (exn + pystr option) list) \<Rightarrow> report list \<Rightarrow> pystr list \<times> report list" where
  "obter_anos_disponiveis tab_elements REPORTS =
     (case tab_elements of
        Inl NoSuchElementException \<Rightarrow> ([], REPORTS @ [TabsNotFound])
      | Inl OtherException \<Rightarrow> ([], REPORTS @ [YearsError])
      | Inr tabs \<Rightarrow>
          (case collect_anos tabs [] of
             Inl NoSuchElementException \<Rightarrow> ([], REPORTS @ [TabsNotFound])
           | Inl OtherException \<Rightarrow> ([], REPORTS @ [YearsError])
           | Inr anos \<Rightarrow> (sorted_reverse anos, REPORTS)))"

text \<open>
  The \<open>for ano in anos_disponiveis\<close> loop of \<open>main\<close>. What the body does with a year (the
  click on the tab, the extraction, the downloads) is the parameter \<open>body\<close>: from the state
  before (the browser, the files, \<open>REPORTS\<close>) it gives the state after and the exception it
  raises, if any. An exception leaves the loop (the handler of \<open>main\<close> catches it); a body
  that ends normally, by \<open>continue\<close> or at its end, is followed by the next year.
\<close>

fun main_loop :: "(pystr \<Rightarrow> 's \<Rightarrow> exn option \<times> 's) \<Rightarrow> pystr list \<Rightarrow> 's \<Rightarrow> exn option \<times> 's" where
  "main_loop body [] s = (None, s)"
| "main_loop body (y # ys) s =
     (case body y s of
        (Some x, s') \<Rightarrow> (Some x, s')
      | (None, s') \<Rightarrow> main_loop body ys s')"

text \<open>
  \<open>main\<close> from the discovery of the years on: with no year it returns before the loop;
  otherwise the loop runs over the years as \<open>obter_anos_disponiveis\<close> returned them. The
  result is the exception that ended the loop, if any, and the state the bodies left.
\<close>

definition main_years ::
  "(exn + (exn + pystr option) list) \<Rightarrow> (pystr \<Rightarrow> 's \<Rightarrow> exn option \<times> 's) \<Rightarrow> 's \<Rightarrow> exn option \<times> 's" where
  "main_years tab_elements body s =
     (let (anos_disponiveis, R) = obter_anos_disponiveis tab_elements [] in
      if anos_disponiveis = [] then (None, s)
      else main_loop body anos_disponiveis s)"

text \<open>
  The state after the bodies of a list of years have run one after the other, in the order
  of the list.
\<close>

definition bodies_run :: "(pystr \<Rightarrow> 's \<Rightarrow> exn option \<times> 's) \<Rightarrow> pystr list \<Rightarrow> 's \<Rightarrow> 's" where
  "bodies_run body ys s = foldl (\<lambda>t y. snd (body y t)) s ys"

section \<open>Positions of a harvest that can give a link\<close>

text \<open>
  What the link classifier looks at in an anchor: whether its normalized text contains
  "prova" or "gabarito". Position \<open>i\<close> of a harvest can give the exam link when the anchor
  there contains "prova" and has a non-empty \<open>href\<close>. It can give the answer-key link when
  the anchor contains "gabarito", has a non-empty \<open>href\<close>, and is not taken by the exam
  test: it does not contain "prova", or an earlier position gave the exam link.
\<close>

definition has_prova :: "(nat \<Rightarrow> pystr) \<Rightarrow> node \<Rightarrow> bool" where
  "has_prova decomp a =
     py_in (ascii ''prova'') (normalizar_texto_para_comparacao decomp (Some (etext a)))"

definition has_gabarito :: "(nat \<Rightarrow> pystr) \<Rightarrow> node \<Rightarrow> bool" where
  "has_gabarito decomp a =
     py_in (ascii ''gabarito'') (normalizar_texto_para_comparacao decomp (Some (etext a)))"

definition exam_at :: "(nat \<Rightarrow> pystr) \<Rightarrow> node list \<Rightarrow> nat \<Rightarrow> bool" where
  "exam_at decomp links i = (has_prova decomp (links ! i) \<and> truthy (href (links ! i)))"

definition key_at :: "(nat \<Rightarrow> pystr) \<Rightarrow> node list \<Rightarrow> nat \<Rightarrow> bool" where
  "key_at decomp links i =
     (has_gabarito decomp (links ! i) \<and> truthy (href (links ! i))
      \<and> (has_prova decomp (links ! i) \<longrightarrow> (\<exists>j<i. exam_at decomp links j)))"

text \<open>
  The same search for the answer-key anchor as a scan with a flag that says whether the
  exam link is already set.
\<close>

fun key_first :: "(nat \<Rightarrow> pystr) \<Rightarrow> bool \<Rightarrow> node list \<Rightarrow> node option" where
  "key_first decomp latched [] = None"
| "key_first decomp latched (a # as) =
     (if has_gabarito decomp a \<and> truthy (href a) \<and> (has_prova decomp a \<longrightarrow> latched) then Some a
      else key_first decomp (latched \<or> (has_prova decomp a \<and> truthy (href a))) as)"

text \<open>
  The positions that can give the answer-key link when the scan starts with the exam link
  set (\<open>latched\<close>) or not.
\<close>

definition key_from :: "(nat \<Rightarrow> pystr) \<Rightarrow> bool \<Rightarrow> node list \<Rightarrow> nat \<Rightarrow> bool" where
  "key_from decomp latched links i =
     (has_gabarito decomp (links ! i) \<and> truthy (href (links ! i))
      \<and> (has_prova decomp (links ! i) \<longrightarrow> latched \<or> (\<exists>j<i. exam_at decomp links j)))"


section \<open>Auxiliary predicates\<close>

text \<open>
  The shape of a normalized text: letters \<open>a-z\<close> and digits, with single spaces between
  them only (\<open>spaced\<close> allows a space at either end, \<open>trimmed\<close> excludes it).
\<close>

fun spaced :: "pystr \<Rightarrow> bool" where
  "spaced [] = True"
| "spaced (c # s) =
     ((is_alnum c \<or> (c = 32 \<and> (case s of [] \<Rightarrow> True | d # _ \<Rightarrow> is_alnum d))) \<and> spaced s)"

definition trimmed :: "pystr \<Rightarrow> bool" where
  "trimmed s = (s = [] \<or> (\<not> is_space (hd s) \<and> \<not> is_space (last s)))"

text \<open>
  The anchors with their positions, for the siblings chosen by \<open>sel\<close>, numbering the
  siblings from \<open>n\<close> (a probe numbers them from 0).
\<close>

definition keyed_from :: "nat \<Rightarrow> (node \<Rightarrow> bool) \<Rightarrow> nat \<Rightarrow> node list \<Rightarrow> (pos \<times> node) list" where
  "keyed_from r sel n sibs =
     concat (map (\<lambda>(i, s). if sel s
                             then map (\<lambda>(j, a). ((r, i, j), a)) (enumerate 0 (anchors s))
                             else [])
                 (enumerate n sibs))"

section \<open>Example pages\<close>

text \<open>
  Small pages on which the functions are evaluated: an anchor with a text and an \<open>href\<close>,
  a callout paragraph, and a list or block container.
\<close>

definition anchor_node :: "pystr \<Rightarrow> pystr option \<Rightarrow> node" where
  "anchor_node t h = Node ''a'' [] t t h False []"

definition callout_node :: "pystr \<Rightarrow> node" where
  "callout_node t = Node ''p'' [''callout''] t t None False []"

definition list_node :: "string \<Rightarrow> node list \<Rightarrow> node" where
  "list_node t ks = Node t [] [] [] None False ks"

definition label_regular_d1 :: pystr where
  "label_regular_d1 = ascii ''1'' @ [186] @ ascii '' Dia '' @ [8211] @ ascii '' Caderno 1 '' @ [8211]
     @ ascii '' Azul '' @ [8211] @ ascii '' '' @ aplicacao @ ascii '' Regular''"

definition label_regular_d2 :: pystr where
  "label_regular_d2 = ascii ''2'' @ [186] @ ascii '' Dia '' @ [8211] @ ascii '' Caderno 7 '' @ [8211]
     @ ascii '' Azul '' @ [8211] @ ascii '' '' @ aplicacao @ ascii '' Regular''"

text \<open>
  A year tab with the two callouts of the regular application, each followed by its list
  of links; the second list has the answer key before the exam.
\<close>

definition page_regular :: element where
  "page_regular =
     \<lparr>el = Node ''div'' [''tab-content''] [] [] None False
        [callout_node label_regular_d1,
         list_node ''ul'' [anchor_node (ascii ''Prova'') (Some (ascii ''p1.pdf'')),
                           anchor_node (ascii ''Gabarito'') (Some (ascii ''g1.pdf''))],
         callout_node label_regular_d2,
         list_node ''ul'' [anchor_node (ascii ''Gabarito'') (Some (ascii ''g2.pdf'')),
                           anchor_node (ascii ''Prova'') (Some (ascii ''p2.pdf''))]],
      fsibs = [], parent_fsibs = []\<rparr>"

text \<open>
  Two harvests: one whose first anchor names both kinds, and one with an answer key, an
  anchor that names both kinds, and another answer key.
\<close>

definition links_both :: "node list" where
  "links_both =
     [anchor_node (ascii ''Prova e Gabarito'') (Some (ascii ''both.pdf'')),
      anchor_node (ascii ''Gabarito'') (Some (ascii ''g.pdf''))]"

definition links_three :: "node list" where
  "links_three =
     [anchor_node (ascii ''Gabarito 1'') (Some (ascii ''g1.pdf'')),
      anchor_node (ascii ''Prova e Gabarito'') (Some (ascii ''both.pdf'')),
      anchor_node (ascii ''Gabarito 2'') (Some (ascii ''g2.pdf''))]"

text \<open>
  A callout followed by a block with one link and then by a list with one link.
\<close>

definition callout_mixed :: element where
  "callout_mixed =
     \<lparr>el = callout_node (ascii ''1 Dia Caderno 1 Azul''),
      fsibs = [list_node ''div'' [anchor_node (ascii ''Prova'') (Some (ascii ''x.pdf''))],
               list_node ''ul'' [anchor_node (ascii ''Gabarito'') (Some (ascii ''y.pdf''))]],
      parent_fsibs = []\<rparr>"

text \<open>
  A year tab with a link to the essay theme and the first-day group of the
  re-application; the same tab with an essay-theme link that fails when it is read; and a
  tab without any callout or link.
\<close>

definition label_tema :: pystr where
  "label_tema = ascii ''Tema da Reda'' @ [231, 227] @ ascii ''o''"

definition label_reaplicacao_d1 :: pystr where
  "label_reaplicacao_d1 = ascii ''1'' @ [186] @ ascii '' Dia '' @ [8211] @ ascii '' Caderno 1 '' @ [8211]
     @ ascii '' Azul '' @ [8211] @ ascii '' '' @ reaplicacao_ppl"

definition group_reaplicacao_d1 :: "node list" where
  "group_reaplicacao_d1 =
     [callout_node label_reaplicacao_d1,
      list_node ''ul'' [anchor_node (ascii ''Prova'') (Some (ascii ''rp1.pdf'')),
                        anchor_node (ascii ''Gabarito'') (Some (ascii ''rg1.pdf''))]]"

definition page_reaplicacao :: element where
  "page_reaplicacao =
     \<lparr>el = Node ''div'' [''tab-content''] [] [] None False
        (anchor_node label_tema (Some (ascii ''tema.pdf'')) # group_reaplicacao_d1),
      fsibs = [], parent_fsibs = []\<rparr>"



section \<open>Properties of the text normalizer\<close>

lemma alnum_not_space: "is_alnum c \<Longrightarrow> \<not> is_space c"
  by (auto simp: is_alnum_def is_space_def)

lemma dropWhile_id: "\<not> P (hd xs) \<Longrightarrow> dropWhile P xs = xs"
  by (cases xs) auto

lemma spaced_re_sub_runs: "spaced (re_sub_runs (\<lambda>c. \<not> is_alnum c) s)"
proof (induction "\<lambda>c. \<not> is_alnum c" s rule: re_sub_runs.induct)
  case 1
  show ?case by simp
next
  case (2 c cs)
  show ?case
  proof (cases "is_alnum c")
    case True
    with 2 show ?thesis by (cases cs) auto
  next
    case False
    show ?thesis
    proof (cases "dropWhile (\<lambda>c. \<not> is_alnum c) cs")
      case Nil
      with False show ?thesis by (simp del: dropWhile_eq_Nil_conv)
    next
      case (Cons d ds)
      then have "is_alnum d" using hd_dropWhile [of "\<lambda>c. \<not> is_alnum c" cs] by auto
      with False 2 Cons show ?thesis by auto
    qed
  qed
qed

lemma re_sub_runs_spaced:
  "spaced s \<Longrightarrow> (\<And>c. is_alnum c \<Longrightarrow> \<not> C c) \<Longrightarrow> re_sub_runs C s = s"
proof (induction s)
  case Nil
  show ?case by simp
next
  case (Cons c s)
  then show ?case by (cases s) auto
qed

lemma spaced_dropWhile: "spaced s \<Longrightarrow> spaced (dropWhile P s)"
  by (induction s) auto

lemma spaced_butlast: "spaced s \<Longrightarrow> spaced (butlast s)"
  by (induction s) (auto split: list.splits)

lemma spaced_strip_end: "spaced s \<Longrightarrow> spaced (rev (dropWhile P (rev s)))"
proof (induction s rule: rev_induct)
  case Nil
  show ?case by simp
next
  case (snoc x xs)
  have "spaced xs" using spaced_butlast [OF snoc.prems] by simp
  with snoc show ?case by auto
qed

lemma spaced_py_strip: "spaced s \<Longrightarrow> spaced (py_strip s)"
  unfolding py_strip_def by (intro spaced_strip_end spaced_dropWhile)

lemma trimmed_py_strip: "trimmed (py_strip s)"
proof -
  define u where "u = dropWhile is_space s"
  define v where "v = dropWhile is_space (rev u)"
  have r: "py_strip s = rev v" by (simp add: py_strip_def u_def v_def)
  show ?thesis
  proof (cases "v = []")
    case True
    with r show ?thesis by (simp add: trimmed_def)
  next
    case False
    then have a: "\<not> is_space (hd v)" using hd_dropWhile [of is_space "rev u"] by (simp add: v_def)
    have un: "u \<noteq> []" using False by (auto simp: v_def)
    then have hu: "\<not> is_space (hd u)" using hd_dropWhile [of is_space s] by (simp add: u_def)
    have "rev u = takeWhile is_space (rev u) @ v" by (simp add: v_def)
    then have "last (rev u) = last v" using False by (metis last_appendR)
    then have lv: "\<not> is_space (last v)" using hu un by (simp add: last_rev)
    have "hd (rev v) = last v" "last (rev v) = hd v" using False by (simp_all add: hd_rev last_rev)
    then show ?thesis using a lv r by (simp add: trimmed_def)
  qed
qed

lemma py_strip_trimmed: "trimmed s \<Longrightarrow> py_strip s = s"
proof (cases "s = []")
  case True
  then show ?thesis by (simp add: py_strip_def)
next
  case False
  assume "trimmed s"
  with False have c: "\<not> is_space (hd s)" and l: "\<not> is_space (last s)" by (auto simp: trimmed_def)
  have 1: "dropWhile is_space s = s" using c by (rule dropWhile_id)
  have "hd (rev s) = last s" using False by (simp add: hd_rev)
  then have 2: "dropWhile is_space (rev s) = rev s" using l by (simp add: dropWhile_id)
  show ?thesis by (simp add: py_strip_def 1 2)
qed

lemma py_replace_absent: "old \<noteq> [] \<Longrightarrow> hd old \<notin> set s \<Longrightarrow> py_replace old new s = s"
proof (induction s)
  case Nil
  then show ?case by (cases old) auto
next
  case (Cons c s)
  then show ?case by (cases old) (auto simp: prefix_Cons)
qed

lemma spaced_chars: "spaced s \<Longrightarrow> c \<in> set s \<Longrightarrow> is_alnum c \<or> c = 32"
  by (induction s) auto

lemma nfd_ascii_id: "(\<And>c. c \<in> set s \<Longrightarrow> c < 128) \<Longrightarrow> nfd_ascii decomp s = s"
  by (induction s) (auto simp: nfd_ascii_def)

lemma map_lower_id: "(\<And>c. c \<in> set s \<Longrightarrow> \<not> (65 \<le> c \<and> c \<le> 90)) \<Longrightarrow> map lower s = s"
  by (induction s) (auto simp: lower_def)

lemma normalize_fixed:
  assumes sp: "spaced s" and tr: "trimmed s"
  shows "normalizar_texto_para_comparacao decomp (Some s) = s"
proof -
  have ch: "\<And>c. c \<in> set s \<Longrightarrow> is_alnum c \<or> c = 32" using sp spaced_chars by blast
  have "38 \<notin> set s" "8211 \<notin> set s" "186 \<notin> set s" "170 \<notin> set s"
    using ch [of 38] ch [of 8211] ch [of 186] ch [of 170] by (auto simp: is_alnum_def)
  then have r: "py_replace (ascii ''&nbsp;'') (ascii '' '') s = s" "py_replace [8211] (ascii ''-'') s = s"
     "py_replace [186] [] s = s" "py_replace [170] [] s = s"
    by (simp_all add: py_replace_absent ascii_def)
  have n: "nfd_ascii decomp s = s"
  proof (rule nfd_ascii_id)
    fix c assume "c \<in> set s"
    from ch [OF this] show "c < 128" by (auto simp: is_alnum_def)
  qed
  have l: "map lower s = s"
  proof (rule map_lower_id)
    fix c assume "c \<in> set s"
    from ch [OF this] show "\<not> (65 \<le> c \<and> c \<le> 90)" by (auto simp: is_alnum_def)
  qed
  have a: "re_sub_runs (\<lambda>c. \<not> is_alnum c) s = s" using sp by (rule re_sub_runs_spaced) simp
  have b: "re_sub_runs is_space s = s" using sp by (rule re_sub_runs_spaced) (rule alnum_not_space)
  show ?thesis
    by (simp add: normalizar_texto_para_comparacao_def r n l a b py_strip_trimmed [OF tr])
qed

lemma normalize_shape:
  "spaced (normalizar_texto_para_comparacao decomp t) \<and> trimmed (normalizar_texto_para_comparacao decomp t)"
proof (cases t)
  case None
  then show ?thesis by (simp add: normalizar_texto_para_comparacao_def trimmed_def)
next
  case (Some t0)
  have "spaced (re_sub_runs is_space (re_sub_runs (\<lambda>c. \<not> is_alnum c) u))" for u
    using re_sub_runs_spaced [OF spaced_re_sub_runs, of is_space u] spaced_re_sub_runs [of u]
    by (simp add: alnum_not_space)
  then show ?thesis using Some
    by (simp add: normalizar_texto_para_comparacao_def Let_def spaced_py_strip trimmed_py_strip)
qed

text \<open>Evaluation of the normalizer on the labels used below.\<close>

lemmas normalize_eval =
  normalizar_texto_para_comparacao_def ascii_def nfd_ascii_def lower_def is_alnum_def
  is_space_def py_strip_def

lemma normalize_primeiro_dia:
  "normalizar_texto_para_comparacao decomp
     (Some (ascii ''1'' @ [186] @ ascii '' Dia '' @ [8211] @ ascii '' Caderno 1''))
   = ascii ''1 dia caderno 1''"
  by (simp add: normalize_eval)

text \<open>
  C7. Normalization is idempotent: normalizing the result of a normalization (of a string
  or of \<open>None\<close>) gives that result again, whatever the decomposition table.
\<close>

theorem normalize_idempotent:
  "normalizar_texto_para_comparacao decomp (Some (normalizar_texto_para_comparacao decomp t))
     = normalizar_texto_para_comparacao decomp t"
  using normalize_shape [of decomp t] by (simp add: normalize_fixed)

theorem normalize_idempotent_witness:
  "normalizar_texto_para_comparacao latin1_decomp
     (Some (normalizar_texto_para_comparacao latin1_decomp
        (Some (ascii ''1'' @ [186] @ ascii '' Dia '' @ [8211] @ ascii '' Caderno 1''))))
   = ascii ''1 dia caderno 1''"
  using normalize_idempotent [of latin1_decomp
      "Some (ascii ''1'' @ [186] @ ascii '' Dia '' @ [8211] @ ascii '' Caderno 1'')"]
  by (simp only: normalize_primeiro_dia)

text \<open>
  C8. The normalizer maps \<open>None\<close> to the empty string; it maps the label
  "1(ordinal) Dia (en dash) Caderno 1" to "1 dia caderno 1"; and, where the decomposition
  table has the Unicode decompositions of c-cedilla and a-tilde in both cases, it maps
  "Aplicacao" written with cedilla and tilde, "aplicacao", and the upper-case form with
  cedilla and tilde all to "aplicacao".
\<close>

theorem normalize_contract:
  assumes "decomp 231 = [99, 807]" and "decomp 227 = [97, 771]"
    and "decomp 199 = [67, 807]" and "decomp 195 = [65, 771]"
  shows "normalizar_texto_para_comparacao decomp None = []
    \<and> normalizar_texto_para_comparacao decomp
        (Some (ascii ''1'' @ [186] @ ascii '' Dia '' @ [8211] @ ascii '' Caderno 1''))
      = ascii ''1 dia caderno 1''
    \<and> normalizar_texto_para_comparacao decomp (Some (ascii ''Aplica'' @ [231, 227] @ ascii ''o''))
      = ascii ''aplicacao''
    \<and> normalizar_texto_para_comparacao decomp (Some (ascii ''aplicacao'')) = ascii ''aplicacao''
    \<and> normalizar_texto_para_comparacao decomp (Some (ascii ''APLICA'' @ [199, 195] @ ascii ''O''))
      = ascii ''aplicacao''"
proof -
  have 1: "normalizar_texto_para_comparacao decomp None = []"
    by (simp add: normalizar_texto_para_comparacao_def)
  have 3: "normalizar_texto_para_comparacao decomp (Some (ascii ''Aplica'' @ [231, 227] @ ascii ''o''))
      = ascii ''aplicacao''"
    using assms by (simp add: normalize_eval)
  have 4: "normalizar_texto_para_comparacao decomp (Some (ascii ''aplicacao'')) = ascii ''aplicacao''"
    by (simp add: normalize_eval)
  have 5: "normalizar_texto_para_comparacao decomp (Some (ascii ''APLICA'' @ [199, 195] @ ascii ''O''))
      = ascii ''aplicacao''"
    using assms by (simp add: normalize_eval)
  show ?thesis using 1 normalize_primeiro_dia 3 4 5 by blast
qed

theorem normalize_contract_witness:
  "normalizar_texto_para_comparacao latin1_decomp None = []
    \<and> normalizar_texto_para_comparacao latin1_decomp
        (Some (ascii ''1'' @ [186] @ ascii '' Dia '' @ [8211] @ ascii '' Caderno 1''))
      = ascii ''1 dia caderno 1''
    \<and> normalizar_texto_para_comparacao latin1_decomp (Some (ascii ''Aplica'' @ [231, 227] @ ascii ''o''))
      = ascii ''aplicacao''
    \<and> normalizar_texto_para_comparacao latin1_decomp (Some (ascii ''aplicacao'')) = ascii ''aplicacao''
    \<and> normalizar_texto_para_comparacao latin1_decomp (Some (ascii ''APLICA'' @ [199, 195] @ ascii ''O''))
      = ascii ''aplicacao''"
proof (rule normalize_contract)
  show "latin1_decomp 231 = [99, 807]" by (simp add: latin1_decomp_def latin1_table_def)
  show "latin1_decomp 227 = [97, 771]" by (simp add: latin1_decomp_def latin1_table_def)
  show "latin1_decomp 199 = [67, 807]" by (simp add: latin1_decomp_def latin1_table_def)
  show "latin1_decomp 195 = [65, 771]" by (simp add: latin1_decomp_def latin1_table_def)
qed

section \<open>Callout location\<close>

lemma find_callout_first:
  "i < length es \<Longrightarrow> (\<forall>j\<le>i. \<not> faulty (el (es ! j))) \<Longrightarrow> matches decomp kws (etext (el (es ! i)))
    \<Longrightarrow> (\<forall>j<i. \<not> matches decomp kws (etext (el (es ! j))))
    \<Longrightarrow> find_callout decomp kws es = Inr (Some (es ! i))"
proof (induction es arbitrary: i)
  case Nil
  then show ?case by simp
next
  case (Cons e es)
  show ?case
  proof (cases i)
    case 0
    with Cons.prems show ?thesis by (simp add: node_text_def)
  next
    case (Suc k)
    have e: "\<not> faulty (el e)" "\<not> matches decomp kws (etext (el e))"
      using Cons.prems(2) [rule_format, of 0] Cons.prems(4) [rule_format, of 0] Suc by simp_all
    have "find_callout decomp kws es = Inr (Some (es ! k))"
    proof (rule Cons.IH)
      show "k < length es" using Cons.prems(1) Suc by simp
      show "\<forall>j\<le>k. \<not> faulty (el (es ! j))"
        using Cons.prems(2) Suc by (auto dest: spec [of _ "Suc j" for j])
      show "matches decomp kws (etext (el (es ! k)))" using Cons.prems(3) Suc by simp
      show "\<forall>j<k. \<not> matches decomp kws (etext (el (es ! j)))"
        using Cons.prems(4) Suc by (auto dest: spec [of _ "Suc j" for j])
    qed
    with e Suc show ?thesis by (simp add: node_text_def)
  qed
qed

lemma find_callout_none:
  "(\<forall>e\<in>set es. \<not> faulty (el e) \<and> \<not> matches decomp kws (etext (el e)))
    \<Longrightarrow> find_callout decomp kws es = Inr None"
  by (induction es) (auto simp: node_text_def)

text \<open>Evaluation on the example page.\<close>

lemmas page_eval = anchor_node_def callout_node_def list_node_def descendants_def is_p_callout_def

lemma normalize_label_regular_d1:
  "normalizar_texto_para_comparacao latin1_decomp (Some label_regular_d1)
     = ascii ''1 dia caderno 1 azul aplicacao regular''"
  by (simp add: normalize_eval label_regular_d1_def aplicacao_def latin1_decomp_def latin1_table_def)

lemma normalize_label_regular_d2:
  "normalizar_texto_para_comparacao latin1_decomp (Some label_regular_d2)
     = ascii ''2 dia caderno 7 azul aplicacao regular''"
  by (simp add: normalize_eval label_regular_d2_def aplicacao_def latin1_decomp_def latin1_table_def)

lemma callouts_page_regular:
  "callouts page_regular =
     [\<lparr>el = callout_node label_regular_d1,
       fsibs = [list_node ''ul'' [anchor_node (ascii ''Prova'') (Some (ascii ''p1.pdf'')),
                                 anchor_node (ascii ''Gabarito'') (Some (ascii ''g1.pdf''))],
                callout_node label_regular_d2,
                list_node ''ul'' [anchor_node (ascii ''Gabarito'') (Some (ascii ''g2.pdf'')),
                                 anchor_node (ascii ''Prova'') (Some (ascii ''p2.pdf''))]],
       parent_fsibs = []\<rparr>,
      \<lparr>el = callout_node label_regular_d2,
       fsibs = [list_node ''ul'' [anchor_node (ascii ''Gabarito'') (Some (ascii ''g2.pdf'')),
                                 anchor_node (ascii ''Prova'') (Some (ascii ''p2.pdf''))]],
       parent_fsibs = []\<rparr>]"
  by (simp add: callouts_def page_regular_def page_eval)

text \<open>
  C1. On a container whose commands succeed, the locator goes through the callouts of the
  container in document order. It returns the callout at the first position whose
  normalized text contains every keyword, reading no callout after it. When no callout
  matches, the loop ends with none, and the call of the extraction helper returns no link
  and one report: nothing is raised out of it.
\<close>

theorem callout_location:
  assumes "\<not> faulty (el container)"
  shows "(\<forall>i<length (callouts container).
            (\<forall>j\<le>i. \<not> faulty (el (callouts container ! j)))
            \<and> matches decomp kws (etext (el (callouts container ! i)))
            \<and> (\<forall>j<i. \<not> matches decomp kws (etext (el (callouts container ! j))))
            \<longrightarrow> locate_callout decomp container kws = Inr (callouts container ! i))
    \<and> ((\<forall>e\<in>set (callouts container). \<not> faulty (el e) \<and> \<not> matches decomp kws (etext (el e)))
         \<longrightarrow> find_callout decomp kws (callouts container) = Inr None
           \<and> extrair_prova_gabarito_links decomp container d kws y tb R
               = (Inr [], R @ [PatternNotFound d kws y]))"
proof (intro conjI allI impI)
  fix i
  assume "i < length (callouts container)"
    and "(\<forall>j\<le>i. \<not> faulty (el (callouts container ! j)))
      \<and> matches decomp kws (etext (el (callouts container ! i)))
      \<and> (\<forall>j<i. \<not> matches decomp kws (etext (el (callouts container ! j))))"
  then have "find_callout decomp kws (callouts container) = Inr (Some (callouts container ! i))"
    by (intro find_callout_first) simp_all
  with assms show "locate_callout decomp container kws = Inr (callouts container ! i)"
    by (simp add: locate_callout_def find_elements_p_callout_def)
next
  assume a: "\<forall>e\<in>set (callouts container). \<not> faulty (el e) \<and> \<not> matches decomp kws (etext (el e))"
  then show n: "find_callout decomp kws (callouts container) = Inr None"
    by (rule find_callout_none)
  with assms show "extrair_prova_gabarito_links decomp container d kws y tb R
      = (Inr [], R @ [PatternNotFound d kws y])"
    by (simp add: extrair_prova_gabarito_links_def extrair_try_def locate_callout_def
        find_elements_p_callout_def)
qed

theorem callout_location_witness:
  "locate_callout latin1_decomp page_regular (keywords_to_match regular_d2)
     = Inr (callouts page_regular ! 1)
   \<and> el (callouts page_regular ! 1) = callout_node label_regular_d2
   \<and> extrair_prova_gabarito_links latin1_decomp page_regular (description reaplicacao_d1)
       (keywords_to_match reaplicacao_d1) (ascii ''2023'') (tipo_base reaplicacao_d1) []
     = (Inr [], [PatternNotFound (description reaplicacao_d1) (keywords_to_match reaplicacao_d1)
                   (ascii ''2023'')])"
proof -
  have nf: "\<not> faulty (el page_regular)" by (simp add: page_regular_def)
  have m1: "\<not> matches latin1_decomp (keywords_to_match regular_d2) label_regular_d1"
    by (simp add: matches_def normalize_label_regular_d1 regular_d2_def) (simp add: ascii_def)
  have m2: "matches latin1_decomp (keywords_to_match regular_d2) label_regular_d2"
    by (simp add: matches_def normalize_label_regular_d2 regular_d2_def) (simp add: ascii_def)
  have r1: "\<not> matches latin1_decomp (keywords_to_match reaplicacao_d1) label_regular_d1"
    by (simp add: matches_def normalize_label_regular_d1 reaplicacao_d1_def) (simp add: ascii_def)
  have r2: "\<not> matches latin1_decomp (keywords_to_match reaplicacao_d1) label_regular_d2"
    by (simp add: matches_def normalize_label_regular_d2 reaplicacao_d1_def) (simp add: ascii_def)
  have h1: "(\<forall>j\<le>1. \<not> faulty (el (callouts page_regular ! j)))
      \<and> matches latin1_decomp (keywords_to_match regular_d2) (etext (el (callouts page_regular ! 1)))
      \<and> (\<forall>j<1. \<not> matches latin1_decomp (keywords_to_match regular_d2)
                   (etext (el (callouts page_regular ! j))))"
    using m1 m2 by (simp add: callouts_page_regular callout_node_def le_Suc_eq)
  have h2: "\<forall>e\<in>set (callouts page_regular). \<not> faulty (el e)
      \<and> \<not> matches latin1_decomp (keywords_to_match reaplicacao_d1) (etext (el e))"
    using r1 r2 by (simp add: callouts_page_regular callout_node_def)
  have l: "(1::nat) < length (callouts page_regular)" by (simp add: callouts_page_regular)
  note t1 = callout_location [OF nf, of latin1_decomp "keywords_to_match regular_d2"]
  note t2 = callout_location [OF nf, of latin1_decomp "keywords_to_match reaplicacao_d1"
      "description reaplicacao_d1" "ascii ''2023''" "tipo_base reaplicacao_d1" "[]"]
  have a: "locate_callout latin1_decomp page_regular (keywords_to_match regular_d2)
     = Inr (callouts page_regular ! 1)"
    using t1 l h1 by blast
  have b: "extrair_prova_gabarito_links latin1_decomp page_regular (description reaplicacao_d1)
       (keywords_to_match reaplicacao_d1) (ascii ''2023'') (tipo_base reaplicacao_d1) []
     = (Inr [], [PatternNotFound (description reaplicacao_d1) (keywords_to_match reaplicacao_d1)
                   (ascii ''2023'')])"
    using t2 h2 by simp
  have c: "el (callouts page_regular ! 1) = callout_node label_regular_d2"
    by (simp add: callouts_page_regular)
  from a b c show ?thesis by blast
qed

section \<open>Downloader\<close>

declare baixar_loop.simps [simp del]

lemma baixar_loop_all_transient:
  assumes g: "\<And>n. get n = ConnectionErrorOrTimeout"
  shows "n = nat max_retries - k \<Longrightarrow> int k \<le> max_retries
    \<Longrightarrow> baixar_loop get dest max_retries delay k st
      = (False, st\<lparr>attempts := attempts st + (nat max_retries - k),
                    sleeps := sleeps st @ replicate (nat max_retries - k - 1) delay,
                    reports := reports st @ (if int k < max_retries
                                             then [DownloadExhausted dest max_retries] else [])\<rparr>)"
proof (induction n arbitrary: k st)
  case 0
  then have "\<not> int k < max_retries" by linarith
  then show ?case using 0 by (subst baixar_loop.simps) simp
next
  case (Suc n)
  then have lt: "int k < max_retries" by linarith
  have ih: "baixar_loop get dest max_retries delay (Suc k) st'
      = (False, st'\<lparr>attempts := attempts st' + (nat max_retries - Suc k),
                    sleeps := sleeps st' @ replicate (nat max_retries - Suc k - 1) delay,
                    reports := reports st' @ (if int (Suc k) < max_retries
                                             then [DownloadExhausted dest max_retries] else [])\<rparr>)"
    for st'
  proof (rule Suc.IH)
    show "n = nat max_retries - Suc k" using Suc.prems by linarith
    show "int (Suc k) \<le> max_retries" using lt by linarith
  qed
  show ?case
  proof (cases "int k < max_retries - 1")
    case True
    have step: "baixar_loop get dest max_retries delay k st
        = baixar_loop get dest max_retries delay (Suc k)
            (st\<lparr>attempts := attempts st + 1, sleeps := sleeps st @ [delay]\<rparr>)"
      by (subst baixar_loop.simps) (simp add: lt True g Let_def)
    have "nat max_retries - k - 1 = Suc (nat max_retries - Suc k - 1)" using True by linarith
    then have r: "replicate (nat max_retries - k - 1) delay
        = delay # replicate (nat max_retries - Suc k - 1) delay"
      by simp
    have s: "attempts st + 1 + (nat max_retries - Suc k) = attempts st + (nat max_retries - k)"
      using True by linarith
    have "int (Suc k) < max_retries" using True by linarith
    then show ?thesis unfolding step ih using r s lt by simp
  next
    case False
    have step: "baixar_loop get dest max_retries delay k st
        = baixar_loop get dest max_retries delay (Suc k)
            (st\<lparr>attempts := attempts st + 1,
                reports := reports st @ [DownloadExhausted dest max_retries]\<rparr>)"
      by (subst baixar_loop.simps) (simp add: lt False g Let_def)
    have e: "nat max_retries - k = 1" "nat max_retries - Suc k = 0" using False lt by linarith+
    have "\<not> int (Suc k) < max_retries" using False by linarith
    then show ?thesis unfolding step ih using e lt by simp
  qed
qed

text \<open>
  C5. With three attempts allowed, a download whose first two attempts end in a connection
  error or timeout and whose third succeeds returns \<open>True\<close> after exactly three requests.
  When every attempt ends in a connection error or timeout, the download returns \<open>False\<close>
  after exactly \<open>max_retries\<close> requests, having slept the same delay once between
  consecutive attempts and not after the last. When the first attempt ends in another
  request error or any other exception, the download returns \<open>False\<close> after one request
  and without sleeping, whatever positive \<open>max_retries\<close> is.
\<close>

theorem download_attempt_policy:
  "(get 0 = ConnectionErrorOrTimeout \<and> get 1 = ConnectionErrorOrTimeout \<and> get 2 = Downloaded
      \<longrightarrow> baixar_arquivo get dest 3 delay R
            = (True, \<lparr>attempts = 3, sleeps = [delay, delay], reports = R\<rparr>))
   \<and> ((\<forall>n. get n = ConnectionErrorOrTimeout)
      \<longrightarrow> baixar_arquivo get dest max_retries delay R
            = (False, \<lparr>attempts = nat max_retries,
                       sleeps = replicate (nat max_retries - 1) delay,
                       reports = R @ (if 0 < max_retries
                                      then [DownloadExhausted dest max_retries] else [])\<rparr>))
   \<and> (0 < max_retries \<and> (get 0 = RequestException \<or> get 0 = OtherFailure)
      \<longrightarrow> fst (baixar_arquivo get dest max_retries delay R) = False
          \<and> attempts (snd (baixar_arquivo get dest max_retries delay R)) = 1
          \<and> sleeps (snd (baixar_arquivo get dest max_retries delay R)) = [])"
proof (intro conjI impI)
  assume "get 0 = ConnectionErrorOrTimeout \<and> get 1 = ConnectionErrorOrTimeout \<and> get 2 = Downloaded"
  then have g: "get 0 = ConnectionErrorOrTimeout" "get (Suc 0) = ConnectionErrorOrTimeout"
    "get (Suc (Suc 0)) = Downloaded" by (simp_all add: numeral_2_eq_2)
  show "baixar_arquivo get dest 3 delay R = (True, \<lparr>attempts = 3, sleeps = [delay, delay], reports = R\<rparr>)"
    unfolding baixar_arquivo_def
    by (subst baixar_loop.simps, simp add: g Let_def)+
next
  assume "\<forall>n. get n = ConnectionErrorOrTimeout"
  then have a: "\<And>n. get n = ConnectionErrorOrTimeout" by simp
  show "baixar_arquivo get dest max_retries delay R
      = (False, \<lparr>attempts = nat max_retries, sleeps = replicate (nat max_retries - 1) delay,
                 reports = R @ (if 0 < max_retries then [DownloadExhausted dest max_retries] else [])\<rparr>)"
  proof (cases "0 \<le> max_retries")
    case True
    then show ?thesis
      unfolding baixar_arquivo_def
      by (subst baixar_loop_all_transient [OF a refl]) simp_all
  next
    case False
    then show ?thesis
      unfolding baixar_arquivo_def by (subst baixar_loop.simps) simp
  qed
next
  assume h: "0 < max_retries \<and> (get 0 = RequestException \<or> get 0 = OtherFailure)"
  then show "fst (baixar_arquivo get dest max_retries delay R) = False"
    unfolding baixar_arquivo_def by (subst baixar_loop.simps) (auto simp: Let_def)
  from h show "attempts (snd (baixar_arquivo get dest max_retries delay R)) = 1"
    unfolding baixar_arquivo_def by (subst baixar_loop.simps) (auto simp: Let_def)
  from h show "sleeps (snd (baixar_arquivo get dest max_retries delay R)) = []"
    unfolding baixar_arquivo_def by (subst baixar_loop.simps) (auto simp: Let_def)
qed

theorem download_attempt_policy_witness:
  "baixar_arquivo (\<lambda>n. if n < 2 then ConnectionErrorOrTimeout else Downloaded) (ascii ''a.pdf'') 3 5 []
     = (True, \<lparr>attempts = 3, sleeps = [5, 5], reports = []\<rparr>)
   \<and> baixar_arquivo (\<lambda>n. ConnectionErrorOrTimeout) (ascii ''a.pdf'') 3 5 []
     = (False, \<lparr>attempts = 3, sleeps = [5, 5],
                reports = [DownloadExhausted (ascii ''a.pdf'') 3]\<rparr>)
   \<and> fst (baixar_arquivo (\<lambda>n. RequestException) (ascii ''a.pdf'') 3 5 []) = False
   \<and> attempts (snd (baixar_arquivo (\<lambda>n. RequestException) (ascii ''a.pdf'') 3 5 [])) = 1
   \<and> sleeps (snd (baixar_arquivo (\<lambda>n. RequestException) (ascii ''a.pdf'') 3 5 [])) = []"
  using download_attempt_policy [of "\<lambda>n. if n < 2 then ConnectionErrorOrTimeout else Downloaded"
      "ascii ''a.pdf''" 5 "[]" 3]
    download_attempt_policy [of "\<lambda>n. ConnectionErrorOrTimeout" "ascii ''a.pdf''" 5 "[]" 3]
    download_attempt_policy [of "\<lambda>n. RequestException" "ascii ''a.pdf''" 5 "[]" 3]
  by (simp add: numeral_3_eq_3)

section \<open>Years\<close>

lemma collect_anos_ok:
  "collect_anos (map Inr ids) acc
     = Inr (acc @ [a. Some a \<leftarrow> ids, a \<noteq> [] \<and> a \<noteq> ascii ''Sobre''])"
proof (induction ids arbitrary: acc)
  case Nil
  show ?case by simp
next
  case (Cons i ids)
  show ?case by (cases i) (simp_all add: Cons truthy_def)
qed

lemma bodies_run_Cons: "bodies_run body (y # ys) s = bodies_run body ys (snd (body y s))"
  by (simp add: bodies_run_def)

lemma main_loop_run:
  "\<exists>zs. prefix zs ys \<and> snd (main_loop body ys s) = bodies_run body zs s
     \<and> (fst (main_loop body ys s) = None \<longrightarrow> zs = ys)
     \<and> (\<forall>x. fst (main_loop body ys s) = Some x
           \<longrightarrow> zs \<noteq> [] \<and> fst (body (last zs) (bodies_run body (butlast zs) s)) = Some x)"
proof (induction ys arbitrary: s)
  case Nil
  have "prefix [] ([]::pystr list) \<and> snd (main_loop body [] s) = bodies_run body [] s"
    by (simp add: bodies_run_def)
  then show ?case by (intro exI [of _ "[]"]) simp
next
  case (Cons y ys)
  obtain r s' where b: "body y s = (r, s')" by (cases "body y s")
  show ?case
  proof (cases r)
    case (Some x)
    have "prefix [y] (y # ys)" by simp
    moreover have "snd (main_loop body (y # ys) s) = bodies_run body [y] s"
      using b Some by (simp add: bodies_run_def)
    moreover have "fst (main_loop body (y # ys) s) = Some x" using b Some by simp
    moreover have "fst (body (last [y]) (bodies_run body (butlast [y]) s)) = Some x"
      using b Some by (simp add: bodies_run_def)
    ultimately show ?thesis by (intro exI [of _ "[y]"]) simp
  next
    case None
    then have m: "main_loop body (y # ys) s = main_loop body ys s'" using b by simp
    from Cons [of s'] obtain zs where A: "prefix zs ys \<and> snd (main_loop body ys s') = bodies_run body zs s'
     \<and> (fst (main_loop body ys s') = None \<longrightarrow> zs = ys)
     \<and> (\<forall>x. fst (main_loop body ys s') = Some x
           \<longrightarrow> zs \<noteq> [] \<and> fst (body (last zs) (bodies_run body (butlast zs) s')) = Some x)" ..
    note p = A [THEN conjunct1]
    note r = A [THEN conjunct2, THEN conjunct1]
    note n = A [THEN conjunct2, THEN conjunct2, THEN conjunct1]
    note e = A [THEN conjunct2, THEN conjunct2, THEN conjunct2]
    have s': "snd (body y s) = s'" using b by simp
    have 1: "prefix (y # zs) (y # ys)" using p by simp
    have 2: "snd (main_loop body (y # ys) s) = bodies_run body (y # zs) s"
      unfolding m bodies_run_Cons s' by (rule r)
    have 3: "fst (main_loop body (y # ys) s) = None \<longrightarrow> y # zs = y # ys"
      unfolding m using n by simp
    have 4: "\<forall>x. fst (main_loop body (y # ys) s) = Some x
           \<longrightarrow> y # zs \<noteq> [] \<and> fst (body (last (y # zs)) (bodies_run body (butlast (y # zs)) s)) = Some x"
      unfolding m
    proof (intro allI impI)
      fix x assume ax: "fst (main_loop body ys s') = Some x"
      have zl: "zs \<noteq> [] \<and> fst (body (last zs) (bodies_run body (butlast zs) s')) = Some x"
        using e [rule_format, OF ax] .
      note z = zl [THEN conjunct1] and l = zl [THEN conjunct2]
      have "butlast (y # zs) = y # butlast zs" "last (y # zs) = last zs" using z by simp_all
      then show "y # zs \<noteq> [] \<and> fst (body (last (y # zs)) (bodies_run body (butlast (y # zs)) s)) = Some x"
        using l by (simp only: bodies_run_Cons s') simp
    qed
    from 1 2 3 4 show ?thesis by (intro exI [of _ "y # zs"] conjI)
  qed
qed

lemma main_loop_all:
  "(\<And>y s. fst (body y s) = None) \<Longrightarrow> main_loop body ys s = (None, bodies_run body ys s)"
proof (induction ys arbitrary: s)
  case Nil
  show ?case by (simp add: bodies_run_def)
next
  case (Cons y ys)
  obtain s' where b: "body y s = (None, s')" using Cons.prems [of y s] by (cases "body y s") auto
  show ?case using Cons.IH [OF Cons.prems, of s'] b by (simp add: bodies_run_Cons)
qed

text \<open>
  C10. When the tabs are found and their identifiers read, year discovery returns exactly
  the identifiers that are present, not empty and not "Sobre" (with their multiplicity),
  sorted in descending order. The main loop runs its body on the years of that list in
  that order: the state it ends in is the state after the bodies of a prefix of the list
  have run one after the other, the whole list unless a body raised, and then the body of
  the last year of the prefix is the one that raised. When no body raises, the result is
  the state after the bodies of all the years, in descending order.
\<close>

theorem year_selection:
  "mset (fst (obter_anos_disponiveis (Inr (map Inr ids)) R))
     = mset [a. Some a \<leftarrow> ids, a \<noteq> [] \<and> a \<noteq> ascii ''Sobre'']
   \<and> sorted (rev (fst (obter_anos_disponiveis (Inr (map Inr ids)) R)))
   \<and> (\<exists>zs. prefix zs (fst (obter_anos_disponiveis (Inr (map Inr ids)) R))
         \<and> snd (main_years (Inr (map Inr ids)) body s) = bodies_run body zs s
         \<and> (fst (main_years (Inr (map Inr ids)) body s) = None
              \<longrightarrow> zs = fst (obter_anos_disponiveis (Inr (map Inr ids)) R))
         \<and> (\<forall>x. fst (main_years (Inr (map Inr ids)) body s) = Some x
              \<longrightarrow> zs \<noteq> [] \<and> fst (body (last zs) (bodies_run body (butlast zs) s)) = Some x))
   \<and> ((\<forall>y s. fst (body y s) = None)
        \<longrightarrow> main_years (Inr (map Inr ids)) body s
            = (None, bodies_run body (fst (obter_anos_disponiveis (Inr (map Inr ids)) R)) s))"
proof -
  define sel where "sel = [a. Some a \<leftarrow> ids, a \<noteq> [] \<and> a \<noteq> ascii ''Sobre'']"
  define anos where "anos = rev (sort sel)"
  have o: "obter_anos_disponiveis (Inr (map Inr ids)) R' = (anos, R')" for R'
    using collect_anos_ok [of ids "[]"]
    by (simp add: obter_anos_disponiveis_def sorted_reverse_def sel_def anos_def)
  have m: "main_years (Inr (map Inr ids)) body s = main_loop body anos s"
    by (cases anos) (simp_all add: main_years_def o)
  have 1: "mset anos = mset sel" by (simp add: anos_def)
  have 2: "sorted (rev anos)" by (simp add: anos_def)
  have 3: "\<exists>zs. prefix zs anos
         \<and> snd (main_years (Inr (map Inr ids)) body s) = bodies_run body zs s
         \<and> (fst (main_years (Inr (map Inr ids)) body s) = None \<longrightarrow> zs = anos)
         \<and> (\<forall>x. fst (main_years (Inr (map Inr ids)) body s) = Some x
              \<longrightarrow> zs \<noteq> [] \<and> fst (body (last zs) (bodies_run body (butlast zs) s)) = Some x)"
    unfolding m by (rule main_loop_run)
  have 4: "main_years (Inr (map Inr ids)) body s = (None, bodies_run body anos s)"
    if "\<forall>y s. fst (body y s) = None"
    unfolding m using that by (intro main_loop_all) simp
  show ?thesis using 1 2 3 4 unfolding o fst_conv sel_def by blast
qed

theorem year_selection_witness:
  "fst (obter_anos_disponiveis
     (Inr (map Inr [Some (ascii ''2022''), Some (ascii ''Sobre''), None, Some [], Some (ascii ''2024''),
                    Some (ascii ''2023'')])) [])
     = [ascii ''2024'', ascii ''2023'', ascii ''2022'']
   \<and> main_years
     (Inr (map Inr [Some (ascii ''2022''), Some (ascii ''Sobre''), None, Some [], Some (ascii ''2024''),
                    Some (ascii ''2023'')])) (\<lambda>y s. (None, s @ [y])) []
     = (None, [ascii ''2024'', ascii ''2023'', ascii ''2022''])"
proof -
  have e: "fst (obter_anos_disponiveis
     (Inr (map Inr [Some (ascii ''2022''), Some (ascii ''Sobre''), None, Some [], Some (ascii ''2024''),
                    Some (ascii ''2023'')])) [])
     = [ascii ''2024'', ascii ''2023'', ascii ''2022'']"
    by (simp add: obter_anos_disponiveis_def sorted_reverse_def truthy_def ascii_def)
  have b: "\<forall>y s. fst ((\<lambda>y s. (None, s @ [y])) y (s::pystr list)) = (None::exn option)" by simp
  have r: "bodies_run (\<lambda>y s. (None::exn option, s @ [y]))
      [ascii ''2024'', ascii ''2023'', ascii ''2022''] []
      = [ascii ''2024'', ascii ''2023'', ascii ''2022'']"
    by (simp add: bodies_run_def)
  from year_selection [of "[Some (ascii ''2022''), Some (ascii ''Sobre''), None, Some [],
        Some (ascii ''2024''), Some (ascii ''2023'')]" "[]" "\<lambda>y s. (None, s @ [y])" "[]"] b
  have "main_years
     (Inr (map Inr [Some (ascii ''2022''), Some (ascii ''Sobre''), None, Some [], Some (ascii ''2024''),
                    Some (ascii ''2023'')])) (\<lambda>y s. (None, s @ [y])) []
     = (None, bodies_run (\<lambda>y s. (None::exn option, s @ [y]))
          (fst (obter_anos_disponiveis
     (Inr (map Inr [Some (ascii ''2022''), Some (ascii ''Sobre''), None, Some [], Some (ascii ''2024''),
                    Some (ascii ''2023'')])) [])) [])"
    by blast
  then show ?thesis unfolding e r using e by simp
qed

section \<open>Link classification\<close>

lemma assign_link_ok:
  "\<not> faulty a \<Longrightarrow> assign_link decomp a p g =
     Inr (if has_prova decomp a \<and> \<not> truthy p then (href a, g)
          else if has_gabarito decomp a \<and> \<not> truthy g then (p, href a) else (p, g))"
  by (simp add: assign_link_def node_text_def get_href_def has_prova_def has_gabarito_def Let_def)

lemma classify_loop_char:
  assumes "\<forall>a\<in>set as. \<not> faulty a" and "\<not> (truthy p0 \<and> truthy g0)"
  shows "\<exists>p g. classify_loop decomp as p0 g0 = Inr (p, g)
    \<and> (if truthy p0 then p = p0
        else (case find (\<lambda>a. has_prova decomp a \<and> truthy (href a)) as of
                Some a \<Rightarrow> p = href a | None \<Rightarrow> \<not> truthy p))
    \<and> (if truthy g0 then g = g0
        else (case key_first decomp (truthy p0) as of
                Some a \<Rightarrow> g = href a | None \<Rightarrow> \<not> truthy g))"
  using assms
proof (induction as arbitrary: p0 g0)
  case Nil
  then show ?case by simp
next
  case (Cons a as)
  have nf: "\<not> faulty a" and rest: "\<forall>a\<in>set as. \<not> faulty a" using Cons.prems(1) by simp_all
  note al = assign_link_ok [OF nf, of decomp p0 g0]
  consider (exam) "has_prova decomp a" "\<not> truthy p0"
    | (key) "\<not> (has_prova decomp a \<and> \<not> truthy p0)" "has_gabarito decomp a" "\<not> truthy g0"
    | (none) "\<not> (has_prova decomp a \<and> \<not> truthy p0)" "\<not> (has_gabarito decomp a \<and> \<not> truthy g0)"
    by blast
  then show ?case
  proof cases
    case exam
    show ?thesis
    proof (cases "truthy (href a) \<and> truthy g0")
      case True
      then show ?thesis using exam al by simp
    next
      case False
      from Cons.IH [OF rest False] obtain p g where
        r: "classify_loop decomp as (href a) g0 = Inr (p, g)"
        and pp: "if truthy (href a) then p = href a
          else (case find (\<lambda>a. has_prova decomp a \<and> truthy (href a)) as of
                  Some a \<Rightarrow> p = href a | None \<Rightarrow> \<not> truthy p)"
        and gg: "if truthy g0 then g = g0
          else (case key_first decomp (truthy (href a)) as of
                  Some a \<Rightarrow> g = href a | None \<Rightarrow> \<not> truthy g)"
        by blast
      have "classify_loop decomp (a # as) p0 g0 = Inr (p, g)" using exam al False r by auto
      moreover have "case find (\<lambda>a. has_prova decomp a \<and> truthy (href a)) (a # as) of
                  Some a \<Rightarrow> p = href a | None \<Rightarrow> \<not> truthy p"
        using pp exam by (cases "truthy (href a)") simp_all
      moreover have "if truthy g0 then g = g0
          else (case key_first decomp (truthy p0) (a # as) of
                  Some a \<Rightarrow> g = href a | None \<Rightarrow> \<not> truthy g)"
        using gg exam by simp
      ultimately show ?thesis using exam by simp
    qed
  next
    case key
    show ?thesis
    proof (cases "truthy p0 \<and> truthy (href a)")
      case True
      then show ?thesis using key al by simp
    next
      case False
      from Cons.IH [OF rest False] obtain p g where
        r: "classify_loop decomp as p0 (href a) = Inr (p, g)"
        and pp: "if truthy p0 then p = p0
          else (case find (\<lambda>a. has_prova decomp a \<and> truthy (href a)) as of
                  Some a \<Rightarrow> p = href a | None \<Rightarrow> \<not> truthy p)"
        and gg: "if truthy (href a) then g = href a
          else (case key_first decomp (truthy p0) as of
                  Some a \<Rightarrow> g = href a | None \<Rightarrow> \<not> truthy g)"
        by blast
      have "classify_loop decomp (a # as) p0 g0 = Inr (p, g)" using key al False r by auto
      moreover have "if truthy p0 then p = p0
          else (case find (\<lambda>a. has_prova decomp a \<and> truthy (href a)) (a # as) of
                  Some a \<Rightarrow> p = href a | None \<Rightarrow> \<not> truthy p)"
        using pp key by auto
      moreover have "case key_first decomp (truthy p0) (a # as) of
                  Some a \<Rightarrow> g = href a | None \<Rightarrow> \<not> truthy g"
        using gg key by (cases "truthy (href a)") auto
      ultimately show ?thesis using key by simp
    qed
  next
    case none
    from Cons.IH [OF rest Cons.prems(2)] obtain p g where
      r: "classify_loop decomp as p0 g0 = Inr (p, g)"
      and pp: "if truthy p0 then p = p0
        else (case find (\<lambda>a. has_prova decomp a \<and> truthy (href a)) as of
                Some a \<Rightarrow> p = href a | None \<Rightarrow> \<not> truthy p)"
      and gg: "if truthy g0 then g = g0
        else (case key_first decomp (truthy p0) as of
                Some a \<Rightarrow> g = href a | None \<Rightarrow> \<not> truthy g)"
      by blast
    have "classify_loop decomp (a # as) p0 g0 = Inr (p, g)"
      using none al Cons.prems(2) r by auto
    moreover have "if truthy p0 then p = p0
        else (case find (\<lambda>a. has_prova decomp a \<and> truthy (href a)) (a # as) of
                Some a \<Rightarrow> p = href a | None \<Rightarrow> \<not> truthy p)"
      using pp none by auto
    moreover have "if truthy g0 then g = g0
        else (case key_first decomp (truthy p0) (a # as) of
                Some a \<Rightarrow> g = href a | None \<Rightarrow> \<not> truthy g)"
      using gg none by auto
    ultimately show ?thesis by blast
  qed
qed

lemma key_from_Suc:
  "key_from decomp l (a # as) (Suc i)
     = key_from decomp (l \<or> (has_prova decomp a \<and> truthy (href a))) as i"
proof -
  have "(\<exists>j<Suc i. exam_at decomp (a # as) j)
      = ((has_prova decomp a \<and> truthy (href a)) \<or> (\<exists>j<i. exam_at decomp as j))"
    by (auto simp: exam_at_def less_Suc_eq_0_disj)
  then show ?thesis by (auto simp: key_from_def)
qed

lemma key_from_0:
  "key_from decomp l (a # as) 0
     = (has_gabarito decomp a \<and> truthy (href a) \<and> (has_prova decomp a \<longrightarrow> l))"
  by (simp add: key_from_def)

lemma key_first_index:
  "i < length as \<Longrightarrow> key_from decomp l as i \<Longrightarrow> (\<forall>j<i. \<not> key_from decomp l as j)
    \<Longrightarrow> key_first decomp l as = Some (as ! i)"
proof (induction as arbitrary: l i)
  case Nil
  then show ?case by simp
next
  case (Cons a as)
  show ?case
  proof (cases i)
    case 0
    then show ?thesis using Cons.prems by (simp add: key_from_0)
  next
    case (Suc k)
    have n0: "\<not> key_from decomp l (a # as) 0" using Cons.prems(3) Suc by simp
    have "key_first decomp (l \<or> (has_prova decomp a \<and> truthy (href a))) as = Some (as ! k)"
    proof (rule Cons.IH)
      show "k < length as" using Cons.prems(1) Suc by simp
      show "key_from decomp (l \<or> (has_prova decomp a \<and> truthy (href a))) as k"
        using Cons.prems(2) Suc by (simp add: key_from_Suc)
      show "\<forall>j<k. \<not> key_from decomp (l \<or> (has_prova decomp a \<and> truthy (href a))) as j"
      proof (intro allI impI)
        fix j assume "j < k"
        then have "\<not> key_from decomp l (a # as) (Suc j)" using Cons.prems(3) Suc by simp
        then show "\<not> key_from decomp (l \<or> (has_prova decomp a \<and> truthy (href a))) as j"
          by (simp add: key_from_Suc)
      qed
    qed
    then show ?thesis using n0 Suc by (auto simp: key_from_0)
  qed
qed

lemma key_first_none:
  "(\<forall>i<length as. \<not> key_from decomp l as i) \<Longrightarrow> key_first decomp l as = None"
proof (induction as arbitrary: l)
  case Nil
  show ?case by simp
next
  case (Cons a as)
  have n0: "\<not> key_from decomp l (a # as) 0" using Cons.prems by auto
  have "key_first decomp (l \<or> (has_prova decomp a \<and> truthy (href a))) as = None"
  proof (rule Cons.IH, intro allI impI)
    fix i assume "i < length as"
    then have "\<not> key_from decomp l (a # as) (Suc i)" using Cons.prems by auto
    then show "\<not> key_from decomp (l \<or> (has_prova decomp a \<and> truthy (href a))) as i"
      by (simp add: key_from_Suc)
  qed
  then show ?case using n0 by (auto simp: key_from_0)
qed

lemma find_index:
  "i < length as \<Longrightarrow> P (as ! i) \<Longrightarrow> (\<forall>j<i. \<not> P (as ! j)) \<Longrightarrow> find P as = Some (as ! i)"
  by (auto simp: find_Some_iff)

lemma find_none: "(\<forall>i<length as. \<not> P (as ! i)) \<Longrightarrow> find P as = None"
  by (auto simp: find_None_iff in_set_conv_nth)

lemma emit_form:
  "emit p g d y tb R =
     ((if truthy p then [prova_record y tb p] else []) @ (if truthy g then [gabarito_record y tb g] else []),
      R @ (if truthy p then [] else [LinkProvaNotFound d y])
        @ (if truthy g then [] else [LinkGabaritoNotFound d y]))"
  by (simp add: emit_def)

text \<open>
  C2 (as amended). For a harvest whose anchors answer the commands, scanned once in order:
  the exam link is the \<open>href\<close> of the first anchor whose normalized text contains "prova" and
  whose \<open>href\<close> is not empty; the answer-key link is the \<open>href\<close> of the first anchor whose
  normalized text contains "gabarito", whose \<open>href\<close> is not empty, and which the exam test
  did not take (it does not contain "prova", or the exam link was set before it). A kind
  without such an anchor gets its report, and the other kind is still assigned: the result
  is the exam record or its report, followed by the answer-key record or its report.
\<close>

theorem link_classification:
  assumes "\<forall>a\<in>set links. \<not> faulty a"
  shows "\<exists>p g. classify_links decomp links d y tb R
       = Inr ((if truthy p then [prova_record y tb p] else [])
              @ (if truthy g then [gabarito_record y tb g] else []),
              R @ (if truthy p then [] else [LinkProvaNotFound d y])
                @ (if truthy g then [] else [LinkGabaritoNotFound d y]))
    \<and> (\<forall>i<length links. exam_at decomp links i \<and> (\<forall>j<i. \<not> exam_at decomp links j)
          \<longrightarrow> p = href (links ! i))
    \<and> ((\<forall>i<length links. \<not> exam_at decomp links i) \<longrightarrow> \<not> truthy p)
    \<and> (\<forall>i<length links. key_at decomp links i \<and> (\<forall>j<i. \<not> key_at decomp links j)
          \<longrightarrow> g = href (links ! i))
    \<and> ((\<forall>i<length links. \<not> key_at decomp links i) \<longrightarrow> \<not> truthy g)"
proof -
  have t: "\<not> (truthy None \<and> truthy None)" by (simp add: truthy_def)
  from classify_loop_char [OF assms t, of decomp] obtain p g where
    r: "classify_loop decomp links None None = Inr (p, g)"
    and pp: "case find (\<lambda>a. has_prova decomp a \<and> truthy (href a)) links of
                Some a \<Rightarrow> p = href a | None \<Rightarrow> \<not> truthy p"
    and gg: "case key_first decomp False links of Some a \<Rightarrow> g = href a | None \<Rightarrow> \<not> truthy g"
    by (auto simp: truthy_def)
  have kf: "key_at decomp links i = key_from decomp False links i" for i
    by (simp add: key_at_def key_from_def)
  have 1: "classify_links decomp links d y tb R
       = Inr ((if truthy p then [prova_record y tb p] else [])
              @ (if truthy g then [gabarito_record y tb g] else []),
              R @ (if truthy p then [] else [LinkProvaNotFound d y])
                @ (if truthy g then [] else [LinkGabaritoNotFound d y]))"
    by (simp add: classify_links_def r emit_form)
  have 2: "p = href (links ! i)"
    if "i < length links" "exam_at decomp links i \<and> (\<forall>j<i. \<not> exam_at decomp links j)" for i
  proof -
    have "find (\<lambda>a. has_prova decomp a \<and> truthy (href a)) links = Some (links ! i)"
      using that by (intro find_index) (simp_all add: exam_at_def)
    with pp show ?thesis by simp
  qed
  have 3: "\<not> truthy p" if "\<forall>i<length links. \<not> exam_at decomp links i"
  proof -
    have "find (\<lambda>a. has_prova decomp a \<and> truthy (href a)) links = None"
      using that by (intro find_none) (simp add: exam_at_def)
    with pp show ?thesis by simp
  qed
  have 4: "g = href (links ! i)"
    if "i < length links" "key_at decomp links i \<and> (\<forall>j<i. \<not> key_at decomp links j)" for i
  proof -
    have "key_first decomp False links = Some (links ! i)"
      using that by (intro key_first_index) (simp_all add: kf)
    with gg show ?thesis by simp
  qed
  have 5: "\<not> truthy g" if "\<forall>i<length links. \<not> key_at decomp links i"
  proof -
    have "key_first decomp False links = None"
      using that by (intro key_first_none) (simp add: kf)
    with gg show ?thesis by simp
  qed
  from 1 2 3 4 5 show ?thesis by blast
qed

lemma norm_prova_e_gabarito:
  "normalizar_texto_para_comparacao decomp (Some (ascii ''Prova e Gabarito'')) = ascii ''prova e gabarito''"
  by (simp add: normalize_eval)

lemma norm_gabarito:
  "normalizar_texto_para_comparacao decomp (Some (ascii ''Gabarito'')) = ascii ''gabarito''"
  by (simp add: normalize_eval)

lemma norm_prova:
  "normalizar_texto_para_comparacao decomp (Some (ascii ''Prova'')) = ascii ''prova''"
  by (simp add: normalize_eval)

lemma norm_gabarito_1:
  "normalizar_texto_para_comparacao decomp (Some (ascii ''Gabarito 1'')) = ascii ''gabarito 1''"
  by (simp add: normalize_eval)

lemma norm_gabarito_2:
  "normalizar_texto_para_comparacao decomp (Some (ascii ''Gabarito 2'')) = ascii ''gabarito 2''"
  by (simp add: normalize_eval)

lemma anchor_kinds:
  "has_prova decomp (anchor_node (ascii ''Prova e Gabarito'') h)"
  "has_gabarito decomp (anchor_node (ascii ''Prova e Gabarito'') h)"
  "\<not> has_prova decomp (anchor_node (ascii ''Gabarito'') h)"
  "has_gabarito decomp (anchor_node (ascii ''Gabarito'') h)"
  "has_prova decomp (anchor_node (ascii ''Prova'') h)"
  "\<not> has_gabarito decomp (anchor_node (ascii ''Prova'') h)"
  "\<not> has_prova decomp (anchor_node (ascii ''Gabarito 1'') h)"
  "has_gabarito decomp (anchor_node (ascii ''Gabarito 1'') h)"
  "\<not> has_prova decomp (anchor_node (ascii ''Gabarito 2'') h)"
  "has_gabarito decomp (anchor_node (ascii ''Gabarito 2'') h)"
  by (simp_all add: has_prova_def has_gabarito_def anchor_node_def norm_prova_e_gabarito
      norm_gabarito norm_prova norm_gabarito_1 norm_gabarito_2, simp_all add: ascii_def)

lemma anchor_sel:
  "\<not> faulty (anchor_node t h)" "href (anchor_node t h) = h" "tag (anchor_node t h) = ''a''"
  by (simp_all add: anchor_node_def)

lemma truthy_eval: "truthy (Some (ascii (c # cs)))" "\<not> truthy None" "\<not> truthy (Some [])"
  by (simp_all add: truthy_def ascii_def)

text \<open>
  The claim as stated fails when one anchor names both kinds: the first anchor whose
  text contains "gabarito" is the first of \<open>links_both\<close>, but the answer-key link is taken
  from the second.
\<close>

theorem link_classification_counterexample:
  "classify_links latin1_decomp links_both (ascii ''d'') (ascii ''2023'') (ascii ''regular_d1'') []
     = Inr ([prova_record (ascii ''2023'') (ascii ''regular_d1'') (Some (ascii ''both.pdf'')),
             gabarito_record (ascii ''2023'') (ascii ''regular_d1'') (Some (ascii ''g.pdf''))], [])
   \<and> map_option href (find (has_gabarito latin1_decomp) links_both) = Some (Some (ascii ''both.pdf''))
   \<and> ascii ''both.pdf'' \<noteq> ascii ''g.pdf''"
proof -
  have "classify_loop latin1_decomp links_both None None
      = Inr (Some (ascii ''both.pdf''), Some (ascii ''g.pdf''))"
    by (simp add: links_both_def assign_link_ok anchor_sel anchor_kinds truthy_eval)
  then have "classify_links latin1_decomp links_both (ascii ''d'') (ascii ''2023'') (ascii ''regular_d1'') []
     = Inr ([prova_record (ascii ''2023'') (ascii ''regular_d1'') (Some (ascii ''both.pdf'')),
             gabarito_record (ascii ''2023'') (ascii ''regular_d1'') (Some (ascii ''g.pdf''))], [])"
    by (simp add: classify_links_def emit_form truthy_eval)
  moreover have "map_option href (find (has_gabarito latin1_decomp) links_both)
      = Some (Some (ascii ''both.pdf''))"
    by (simp add: links_both_def anchor_kinds anchor_sel)
  moreover have "ascii ''both.pdf'' \<noteq> ascii ''g.pdf''" by (simp add: ascii_def)
  ultimately show ?thesis by blast
qed

theorem link_classification_witness:
  "classify_links latin1_decomp links_three (ascii ''d'') (ascii ''2023'') (ascii ''regular_d1'') []
     = Inr ([prova_record (ascii ''2023'') (ascii ''regular_d1'') (Some (ascii ''both.pdf'')),
             gabarito_record (ascii ''2023'') (ascii ''regular_d1'') (Some (ascii ''g1.pdf''))], [])"
proof -
  have nf: "\<forall>a\<in>set links_three. \<not> faulty a" by (simp add: links_three_def anchor_sel)
  have e0: "\<not> exam_at latin1_decomp links_three 0"
    by (simp add: exam_at_def links_three_def anchor_kinds)
  have e1: "exam_at latin1_decomp links_three 1"
    by (simp add: exam_at_def links_three_def anchor_kinds anchor_sel truthy_eval)
  have k0: "key_at latin1_decomp links_three 0"
    by (simp add: key_at_def links_three_def anchor_kinds anchor_sel truthy_eval)
  from link_classification [OF nf, of latin1_decomp "ascii ''d''" "ascii ''2023''"
      "ascii ''regular_d1''" "[]"]
  obtain p g where
    r: "classify_links latin1_decomp links_three (ascii ''d'') (ascii ''2023'') (ascii ''regular_d1'') []
       = Inr ((if truthy p then [prova_record (ascii ''2023'') (ascii ''regular_d1'') p] else [])
              @ (if truthy g then [gabarito_record (ascii ''2023'') (ascii ''regular_d1'') g] else []),
              [] @ (if truthy p then [] else [LinkProvaNotFound (ascii ''d'') (ascii ''2023'')])
                @ (if truthy g then [] else [LinkGabaritoNotFound (ascii ''d'') (ascii ''2023'')]))"
    and ex: "\<forall>i<length links_three. exam_at latin1_decomp links_three i
          \<and> (\<forall>j<i. \<not> exam_at latin1_decomp links_three j) \<longrightarrow> p = href (links_three ! i)"
    and ke: "\<forall>i<length links_three. key_at latin1_decomp links_three i
          \<and> (\<forall>j<i. \<not> key_at latin1_decomp links_three j) \<longrightarrow> g = href (links_three ! i)"
    by blast
  have "p = href (links_three ! 1)"
    using ex [rule_format, of 1] e0 e1 by (simp add: links_three_def)
  then have p: "p = Some (ascii ''both.pdf'')" by (simp add: links_three_def anchor_sel)
  have "g = href (links_three ! 0)"
    using ke [rule_format, of 0] k0 by (simp add: links_three_def)
  then have g: "g = Some (ascii ''g1.pdf'')" by (simp add: links_three_def anchor_sel)
  show ?thesis using r by (simp add: p g truthy_eval)
qed

text \<open>
  C9. A call of the extraction helper returns its records in one order, whatever the order
  of the anchors in the harvest: the exam record, if there is one, and then the answer-key
  record, if there is one. So a group that yields both kinds yields the exam record first.
\<close>

theorem exam_record_first:
  "\<exists>ls R'. extrair_prova_gabarito_links decomp container d kws y tb R = (Inr ls, R')
     \<and> (\<exists>p g. ls = (if truthy p then [prova_record y tb p] else [])
                   @ (if truthy g then [gabarito_record y tb g] else []))"
proof (cases "extrair_try decomp container d kws y tb R")
  case (Inl x)
  have "\<exists>p g. [] = (if truthy p then [prova_record y tb p] else [])
      @ (if truthy g then [gabarito_record y tb g] else [])"
    by (intro exI [of _ None]) (simp add: truthy_def)
  moreover have "\<exists>R'. extrair_prova_gabarito_links decomp container d kws y tb R = (Inr [], R')"
    using Inl by (cases x) (simp_all add: extrair_prova_gabarito_links_def)
  ultimately show ?thesis by blast
next
  case (Inr r)
  obtain ls R' where r: "r = (ls, R')" by (cases r)
  from Inr obtain p g where "r = emit p g d y tb R"
    by (auto simp: extrair_try_def classify_links_def split: sum.splits)
  then have "ls = (if truthy p then [prova_record y tb p] else [])
      @ (if truthy g then [gabarito_record y tb g] else [])"
    using r by (simp add: emit_form)
  then show ?thesis using Inr r by (auto simp: extrair_prova_gabarito_links_def)
qed

section \<open>Sibling link harvesting\<close>

lemma keyed_from_Nil: "keyed_from r sel n [] = []"
  by (simp add: keyed_from_def)

lemma keyed_from_Cons:
  "keyed_from r sel n (s # sibs)
     = (if sel s then map (\<lambda>(j, a). ((r, n, j), a)) (enumerate 0 (anchors s)) else [])
       @ keyed_from r sel (Suc n) sibs"
  by (simp add: keyed_from_def)

lemma probe_keyed: "probe r t sibs = keyed_from r (\<lambda>s. tag s = t) 0 sibs"
  by (simp add: probe_def keyed_from_def)

lemma map_snd_block: "map (snd \<circ> (\<lambda>(j, a). ((r, n, j), a))) kxs = map snd kxs"
  by (induction kxs) auto

lemma map_fst_block:
  "map (fst \<circ> (\<lambda>(j, a). ((r, n, j), a))) kxs = map (\<lambda>j. (r, n, j)) (map fst kxs)"
  by (induction kxs) auto

lemma map_snd_keyed:
  "map snd (keyed_from r sel n sibs) = concat (map (\<lambda>s. if sel s then anchors s else []) sibs)"
  by (induction sibs arbitrary: n) (simp_all add: keyed_from_Nil keyed_from_Cons map_snd_block)

lemma map_fst_keyed_Cons:
  "map fst (keyed_from r sel n (s # sibs))
     = (if sel s then map (\<lambda>j. (r, n, j)) [0..<length (anchors s)] else [])
       @ map fst (keyed_from r sel (Suc n) sibs)"
  by (simp add: keyed_from_Cons map_fst_block)

lemma keyed_keys:
  "k \<in> set (map fst (keyed_from r sel n sibs)) \<Longrightarrow> fst k = r \<and> n \<le> fst (snd k)"
proof (induction sibs arbitrary: n)
  case Nil
  then show ?case by (simp add: keyed_from_Nil)
next
  case (Cons s sibs)
  from Cons.prems have "k \<in> set (map (\<lambda>j. (r, n, j)) [0..<length (anchors s)])
      \<or> k \<in> set (map fst (keyed_from r sel (Suc n) sibs))"
    unfolding map_fst_keyed_Cons by (auto split: if_splits)
  then show ?case
  proof
    assume "k \<in> set (map (\<lambda>j. (r, n, j)) [0..<length (anchors s)])"
    then show ?thesis by auto
  next
    assume "k \<in> set (map fst (keyed_from r sel (Suc n) sibs))"
    from Cons.IH [OF this] show ?thesis by simp
  qed
qed

lemma sorted_block: "sorted (map (\<lambda>j. (r::nat, n::nat, j)) [k..<m])"
  by (induction m) (auto simp: sorted_append)

lemma distinct_block: "distinct (map (\<lambda>j. (r::nat, n::nat, j)) [k..<m])"
  by (simp add: distinct_map inj_on_def)

lemma sorted_distinct_append:
  fixes xs ys :: "pos list"
  assumes "sorted xs" "distinct xs" "sorted ys" "distinct ys"
    and lt: "\<And>x y. x \<in> set xs \<Longrightarrow> y \<in> set ys \<Longrightarrow> x < y"
  shows "sorted (xs @ ys) \<and> distinct (xs @ ys)"
proof -
  have "set xs \<inter> set ys = {}"
  proof (rule ccontr)
    assume "set xs \<inter> set ys \<noteq> {}"
    then obtain x where "x \<in> set xs" "x \<in> set ys" by blast
    from lt [OF this] show False by simp
  qed
  moreover have "\<forall>x\<in>set xs. \<forall>y\<in>set ys. x \<le> y" using lt by (meson less_imp_le)
  ultimately show ?thesis using assms(1-4) by (simp add: sorted_append)
qed

lemma keyed_sorted_distinct:
  "sorted (map fst (keyed_from r sel n sibs)) \<and> distinct (map fst (keyed_from r sel n sibs))"
proof (induction sibs arbitrary: n)
  case Nil
  show ?case by (simp add: keyed_from_Nil)
next
  case (Cons s sibs)
  let ?b = "map (\<lambda>j. (r, n, j)) [0..<length (anchors s)]"
  let ?t = "map fst (keyed_from r sel (Suc n) sibs)"
  have lt: "x < y" if "x \<in> set ?b" "y \<in> set ?t" for x y
  proof -
    from that(1) obtain j where x: "x = (r, n, j)" by auto
    from keyed_keys [OF that(2)] have "fst y = r" "Suc n \<le> fst (snd y)" by simp_all
    then have "fst x \<le> fst y" "fst (snd x) < fst (snd y)" using x by simp_all
    then show ?thesis by (simp add: less_prod_def)
  qed
  have "sorted (?b @ ?t) \<and> distinct (?b @ ?t)"
    using sorted_block distinct_block Cons.IH [of "Suc n"] lt
    by (intro sorted_distinct_append) blast+
  then show ?case using Cons.IH [of "Suc n"] unfolding map_fst_keyed_Cons by simp
qed

lemma mset_keyed_split:
  "mset (keyed_from r (\<lambda>s. tag s = ''ul'' \<or> tag s = ''div'') n sibs)
     = mset (keyed_from r (\<lambda>s. tag s = ''ul'') n sibs) + mset (keyed_from r (\<lambda>s. tag s = ''div'') n sibs)"
  by (induction sibs arbitrary: n) (auto simp: keyed_from_Nil keyed_from_Cons)

lemma filter_key_singleton:
  "distinct (map f xs) \<Longrightarrow> k \<in> set xs \<Longrightarrow> filter (\<lambda>x. f k = f x) xs = [k]"
proof (induction xs)
  case Nil
  then show ?case by simp
next
  case (Cons x xs)
  have nx: "f x \<notin> f ` set xs" and dx: "distinct (map f xs)" using Cons.prems(1) by simp_all
  show ?case
  proof (cases "k = x")
    case True
    have "filter (\<lambda>y. f x = f y) xs = []" using nx by (auto simp: filter_empty_conv)
    then show ?thesis using True by simp
  next
    case False
    then have kx: "k \<in> set xs" using Cons.prems(2) by simp
    then have "f k \<in> f ` set xs" by simp
    with nx have "f k \<noteq> f x" by metis
    then show ?thesis using Cons.IH [OF dx kx] by simp
  qed
qed

lemma sort_key_unique:
  assumes m: "mset ys = mset xs" and s: "sorted (map f ys)" and d: "distinct (map f ys)"
  shows "sort_key f xs = ys"
proof (rule properties_for_sort_key [OF m _ s])
  fix k assume k: "k \<in> set ys"
  have "mset (map f xs) = mset (map f ys)" using m by simp
  then have dx: "distinct (map f xs)" using d by (metis mset_eq_imp_distinct_iff)
  have kx: "k \<in> set xs" using k m by (metis mset_eq_setD)
  show "filter (\<lambda>x. f k = f x) ys = filter (\<lambda>x. f k = f x) xs"
    by (simp add: filter_key_singleton [OF d k] filter_key_singleton [OF dx kx])
qed

lemma xpath_links_closed_form:
  "xpath_union [probe 0 ''ul'' S, probe 0 ''div'' S, probe 1 ''ul'' T, probe 1 ''div'' T]
     = sibling_links S @ sibling_links T"
proof -
  let ?both = "\<lambda>s. tag s = ''ul'' \<or> tag s = ''div''"
  let ?L = "keyed_from 0 ?both 0 S @ keyed_from 1 ?both 0 T"
  let ?P = "probe 0 ''ul'' S @ probe 0 ''div'' S @ probe 1 ''ul'' T @ probe 1 ''div'' T"
  have m: "mset ?L = mset ?P" by (simp add: probe_keyed mset_keyed_split)
  have lt: "x < y" if "x \<in> set (map fst (keyed_from 0 ?both 0 S))"
    "y \<in> set (map fst (keyed_from 1 ?both 0 T))" for x y
  proof -
    have "fst x = 0" "fst y = 1" using keyed_keys [OF that(1)] keyed_keys [OF that(2)] by simp_all
    then show ?thesis by (simp add: less_prod_def)
  qed
  have sd: "sorted (map fst ?L) \<and> distinct (map fst ?L)"
    unfolding map_append
    using keyed_sorted_distinct [of 0 ?both 0 S] keyed_sorted_distinct [of 1 ?both 0 T] lt
    by (intro sorted_distinct_append) blast+
  then have s: "sorted (map fst ?L)" and d: "distinct (map fst ?L)" by simp_all
  have dm: "distinct (map fst xs) \<Longrightarrow> distinct xs" for xs :: "(pos \<times> node) list"
    by (simp add: distinct_map)
  have dl: "distinct ?L" using d by (rule dm)
  have "distinct ?L = distinct ?P" using m by (rule mset_eq_imp_distinct_iff)
  from this dl have "distinct ?P" by (rule iffD1)
  then have r: "remdups ?P = ?P" by (rule distinct_remdups_id)
  have sk: "sort_key fst ?P = ?L" using m s d by (rule sort_key_unique)
  have "xpath_union [probe 0 ''ul'' S, probe 0 ''div'' S, probe 1 ''ul'' T, probe 1 ''div'' T]
      = map snd (sort_key fst (remdups ?P))"
    unfolding xpath_union_def by (simp only: concat.simps append_Nil2)
  also have "\<dots> = map snd ?L" by (simp only: r sk)
  also have "\<dots> = sibling_links S @ sibling_links T"
    by (simp only: map_append map_snd_keyed sibling_links_def)
  finally show ?thesis .
qed

lemma mset_sibling_links:
  "mset (sibling_links S) = mset (map snd (probe r ''ul'' S)) + mset (map snd (probe r ''div'' S))"
  unfolding probe_keyed map_snd_keyed sibling_links_def
  by (induction S) auto

lemma keyed_from_none: "(\<forall>s\<in>set S. \<not> sel s) \<Longrightarrow> keyed_from r sel n S = []"
  by (induction S arbitrary: n) (simp_all add: keyed_from_Nil keyed_from_Cons)

lemma sibling_links_no_div:
  assumes "\<forall>s\<in>set S. tag s \<noteq> ''div''"
  shows "map snd (probe r ''ul'' S @ probe r ''div'' S) = sibling_links S"
proof -
  have "probe r ''div'' S = []" using assms by (simp add: probe_keyed keyed_from_none)
  moreover have "map snd (probe r ''ul'' S) = sibling_links S"
    unfolding probe_keyed map_snd_keyed sibling_links_def using assms
    by (induction S) auto
  ultimately show ?thesis by simp
qed

lemma xpath_links_closed_form_Suc:
  "xpath_union [probe 0 ''ul'' S, probe 0 ''div'' S, probe (Suc 0) ''ul'' T, probe (Suc 0) ''div'' T]
     = sibling_links S @ sibling_links T"
  using xpath_links_closed_form [of S T] by simp

lemma anchors_list_node:
  "anchors (list_node t [anchor_node t1 h1]) = [anchor_node t1 h1]"
  "anchors (list_node t [anchor_node t1 h1, anchor_node t2 h2]) = [anchor_node t1 h1, anchor_node t2 h2]"
  by (simp_all add: anchors_def list_node_def anchor_node_def)

lemma tag_list_node: "tag (list_node t ks) = t" "tag (callout_node x) = ''p''"
  by (simp_all add: list_node_def callout_node_def)

text \<open>
  C3 (as amended). For a located callout that answers the command, the harvester evaluates
  the union of four probes (the anchors below the list siblings and below the block
  siblings that follow the callout, and the same for the siblings that follow its parent)
  and returns the anchors in document order: those below the following siblings of the
  callout, sibling by sibling whatever the container shape, then those below the following
  siblings of the parent. These are the same anchors as in the concatenation of the four
  probes, the empty sequence when no probe yields an anchor, and the concatenation itself
  when no block sibling is involved.
\<close>

theorem sibling_harvest:
  assumes "\<not> faulty (el c)"
  shows "find_elements_xpath_links c = Inr (sibling_links (fsibs c) @ sibling_links (parent_fsibs c))
    \<and> mset (sibling_links (fsibs c) @ sibling_links (parent_fsibs c)) = mset (harvest_spec c)
    \<and> (harvest_spec c = [] \<longrightarrow> find_elements_xpath_links c = Inr [])
    \<and> ((\<forall>s\<in>set (fsibs c) \<union> set (parent_fsibs c). tag s \<noteq> ''div'')
         \<longrightarrow> find_elements_xpath_links c = Inr (harvest_spec c))"
proof -
  have 1: "find_elements_xpath_links c = Inr (sibling_links (fsibs c) @ sibling_links (parent_fsibs c))"
    using assms by (simp add: find_elements_xpath_links_def xpath_links_closed_form_Suc)
  have "mset (harvest_spec c)
      = (mset (map snd (probe 0 ''ul'' (fsibs c))) + mset (map snd (probe 0 ''div'' (fsibs c))))
        + (mset (map snd (probe 1 ''ul'' (parent_fsibs c)))
           + mset (map snd (probe 1 ''div'' (parent_fsibs c))))"
    unfolding harvest_spec_def map_append mset_append by (simp only: add.assoc)
  also have "\<dots> = mset (sibling_links (fsibs c)) + mset (sibling_links (parent_fsibs c))"
    by (simp only: mset_sibling_links [symmetric])
  finally have 2: "mset (sibling_links (fsibs c) @ sibling_links (parent_fsibs c)) = mset (harvest_spec c)"
    by simp
  have 3: "find_elements_xpath_links c = Inr []" if "harvest_spec c = []"
  proof -
    have "mset (sibling_links (fsibs c) @ sibling_links (parent_fsibs c)) = {#}"
      using 2 that by simp
    then show ?thesis using 1 by simp
  qed
  have 4: "find_elements_xpath_links c = Inr (harvest_spec c)"
    if "\<forall>s\<in>set (fsibs c) \<union> set (parent_fsibs c). tag s \<noteq> ''div''"
  proof -
    have a: "\<forall>s\<in>set (fsibs c). tag s \<noteq> ''div''" and b: "\<forall>s\<in>set (parent_fsibs c). tag s \<noteq> ''div''"
      using that by auto
    have "harvest_spec c = map snd (probe 0 ''ul'' (fsibs c) @ probe 0 ''div'' (fsibs c))
        @ map snd (probe 1 ''ul'' (parent_fsibs c) @ probe 1 ''div'' (parent_fsibs c))"
      by (simp add: harvest_spec_def)
    then show ?thesis
      using 1 by (simp only: sibling_links_no_div [OF a] sibling_links_no_div [OF b])
  qed
  from 1 2 3 4 show ?thesis by blast
qed

text \<open>
  The claim as stated fails when a block sibling comes before a list sibling: the
  concatenation puts the link of the list first, the harvest the link of the block.
\<close>

theorem sibling_harvest_counterexample:
  "find_elements_xpath_links callout_mixed
     = Inr [anchor_node (ascii ''Prova'') (Some (ascii ''x.pdf'')),
            anchor_node (ascii ''Gabarito'') (Some (ascii ''y.pdf''))]
   \<and> harvest_spec callout_mixed
     = [anchor_node (ascii ''Gabarito'') (Some (ascii ''y.pdf'')),
        anchor_node (ascii ''Prova'') (Some (ascii ''x.pdf''))]
   \<and> find_elements_xpath_links callout_mixed \<noteq> Inr (harvest_spec callout_mixed)"
proof -
  have 1: "find_elements_xpath_links callout_mixed
     = Inr [anchor_node (ascii ''Prova'') (Some (ascii ''x.pdf'')),
            anchor_node (ascii ''Gabarito'') (Some (ascii ''y.pdf''))]"
    by (simp add: find_elements_xpath_links_def xpath_links_closed_form_Suc callout_mixed_def
        sibling_links_def anchors_list_node tag_list_node)
      (simp add: callout_node_def)
  have 2: "harvest_spec callout_mixed
     = [anchor_node (ascii ''Gabarito'') (Some (ascii ''y.pdf'')),
        anchor_node (ascii ''Prova'') (Some (ascii ''x.pdf''))]"
    by (simp add: harvest_spec_def probe_def callout_mixed_def anchors_list_node tag_list_node)
  have 3: "anchor_node (ascii ''Prova'') (Some (ascii ''x.pdf''))
      \<noteq> anchor_node (ascii ''Gabarito'') (Some (ascii ''y.pdf''))"
    by (simp add: anchor_node_def ascii_def)
  show ?thesis unfolding 1 2 using 3 by simp
qed

lemma harvest_page_regular_d2:
  "find_elements_xpath_links (callouts page_regular ! 1)
     = Inr [anchor_node (ascii ''Gabarito'') (Some (ascii ''g2.pdf'')),
            anchor_node (ascii ''Prova'') (Some (ascii ''p2.pdf''))]"
  by (simp add: callouts_page_regular find_elements_xpath_links_def xpath_links_closed_form_Suc
      sibling_links_def anchors_list_node tag_list_node)
    (simp add: callout_node_def)

theorem sibling_harvest_witness:
  "find_elements_xpath_links (callouts page_regular ! 1)
     = Inr (harvest_spec (callouts page_regular ! 1))
   \<and> harvest_spec (callouts page_regular ! 1)
     = [anchor_node (ascii ''Gabarito'') (Some (ascii ''g2.pdf'')),
        anchor_node (ascii ''Prova'') (Some (ascii ''p2.pdf''))]"
proof -
  have nf: "\<not> faulty (el (callouts page_regular ! 1))"
    by (simp add: callouts_page_regular callout_node_def)
  have nd: "\<forall>s\<in>set (fsibs (callouts page_regular ! 1)) \<union> set (parent_fsibs (callouts page_regular ! 1)).
      tag s \<noteq> ''div''"
    by (simp add: callouts_page_regular tag_list_node)
  have "find_elements_xpath_links (callouts page_regular ! 1)
     = Inr (harvest_spec (callouts page_regular ! 1))"
    using sibling_harvest [OF nf] nd by blast
  then show ?thesis using harvest_page_regular_d2 by simp
qed


section \<open>Order of the records of one group\<close>

theorem exam_record_first_witness:
  "extrair_prova_gabarito_links latin1_decomp page_regular (description regular_d2)
     (keywords_to_match regular_d2) (ascii ''2023'') (tipo_base regular_d2) []
   = (Inr [prova_record (ascii ''2023'') (tipo_base regular_d2) (Some (ascii ''p2.pdf'')),
           gabarito_record (ascii ''2023'') (tipo_base regular_d2) (Some (ascii ''g2.pdf''))], [])"
proof -
  have nf: "\<not> faulty (el page_regular)" by (simp add: page_regular_def)
  have m1: "\<not> matches latin1_decomp (keywords_to_match regular_d2) label_regular_d1"
    by (simp add: matches_def normalize_label_regular_d1 regular_d2_def) (simp add: ascii_def)
  have m2: "matches latin1_decomp (keywords_to_match regular_d2) label_regular_d2"
    by (simp add: matches_def normalize_label_regular_d2 regular_d2_def) (simp add: ascii_def)
  have "find_callout latin1_decomp (keywords_to_match regular_d2) (callouts page_regular)
      = Inr (Some (callouts page_regular ! 1))"
    using m1 m2 by (simp add: callouts_page_regular node_text_def callout_node_def)
  then have l: "locate_callout latin1_decomp page_regular (keywords_to_match regular_d2)
      = Inr (callouts page_regular ! 1)"
    using nf by (simp add: locate_callout_def find_elements_p_callout_def)
  have c: "classify_loop latin1_decomp
      [anchor_node (ascii ''Gabarito'') (Some (ascii ''g2.pdf'')),
       anchor_node (ascii ''Prova'') (Some (ascii ''p2.pdf''))] None None
      = Inr (Some (ascii ''p2.pdf''), Some (ascii ''g2.pdf''))"
    by (simp add: assign_link_ok anchor_sel anchor_kinds truthy_eval)
  have e: "extrair_prova_gabarito_links latin1_decomp page_regular (description regular_d2)
     (keywords_to_match regular_d2) (ascii ''2023'') (tipo_base regular_d2) []
   = (Inr [prova_record (ascii ''2023'') (tipo_base regular_d2) (Some (ascii ''p2.pdf'')),
           gabarito_record (ascii ''2023'') (tipo_base regular_d2) (Some (ascii ''g2.pdf''))], [])"
    by (simp only: extrair_prova_gabarito_links_def extrair_try_def l harvest_page_regular_d2
        classify_links_def c sum.case)
      (simp add: emit_form truthy_eval)
  from exam_record_first [of latin1_decomp page_regular "description regular_d2"
      "keywords_to_match regular_d2" "ascii ''2023''" "tipo_base regular_d2" "[]"]
  show ?thesis using e by simp
qed

section \<open>Extraction of all groups of a year\<close>

lemma extrair_try_reports:
  "extrair_try decomp c d kws y tb R
     = (case extrair_try decomp c d kws y tb [] of
          Inl x \<Rightarrow> Inl x
        | Inr (ls, new) \<Rightarrow> Inr (ls, R @ new))"
  by (simp add: extrair_try_def classify_links_def emit_form split: sum.splits prod.splits)

lemma helper_reports:
  "extrair_prova_gabarito_links decomp c d kws y tb R
     = (fst (extrair_prova_gabarito_links decomp c d kws y tb []),
        R @ snd (extrair_prova_gabarito_links decomp c d kws y tb []))"
  unfolding extrair_prova_gabarito_links_def extrair_try_reports [of decomp c d kws y tb R]
  by (simp split: sum.splits prod.splits exn.splits)

lemma helper_returns:
  "\<exists>p g. fst (extrair_prova_gabarito_links decomp c d kws y tb R)
     = Inr ((if truthy p then [prova_record y tb p] else [])
            @ (if truthy g then [gabarito_record y tb g] else []))"
proof (cases "extrair_try decomp c d kws y tb R")
  case (Inl x)
  then have "fst (extrair_prova_gabarito_links decomp c d kws y tb R) = Inr []"
    by (cases x) (simp_all add: extrair_prova_gabarito_links_def)
  then show ?thesis by (intro exI [of _ None]) (simp add: truthy_def)
next
  case (Inr r)
  then obtain p g where "r = emit p g d y tb R"
    by (auto simp: extrair_try_def classify_links_def split: sum.splits)
  then show ?thesis using Inr
    by (intro exI [of _ p] exI [of _ g]) (simp add: extrair_prova_gabarito_links_def emit_form)
qed

lemma extend_step_eq:
  "extend_step decomp c y cat (ls, R)
     = (None, (ls @ category_links decomp c y cat, R @ category_reports decomp c y cat))"
proof -
  obtain p g where "fst (extrair_prova_gabarito_links decomp c (description cat)
      (keywords_to_match cat) y (tipo_base cat) [])
     = Inr ((if truthy p then [prova_record y (tipo_base cat) p] else [])
            @ (if truthy g then [gabarito_record y (tipo_base cat) g] else []))"
    using helper_returns by blast
  then show ?thesis
    unfolding extend_step_def category_links_def category_reports_def
    by (subst helper_reports) simp
qed

lemma category_links_tipos:
  "subseq (map tipo (category_links decomp c y cat)) (tipos_of cat)"
proof -
  obtain p g where "fst (extrair_prova_gabarito_links decomp c (description cat)
      (keywords_to_match cat) y (tipo_base cat) [])
     = Inr ((if truthy p then [prova_record y (tipo_base cat) p] else [])
            @ (if truthy g then [gabarito_record y (tipo_base cat) g] else []))"
    using helper_returns by blast
  then show ?thesis
    by (simp add: category_links_def tipos_of_def prova_record_def gabarito_record_def)
qed

lemma tema_step_eq:
  "tema_step c y (ls, R)
     = (if tema_try c y = Inl OtherException then (Some OtherException, (ls, R))
        else (None, (ls @ tema_links c y, R @ tema_reports c y)))"
  by (simp add: tema_step_def tema_links_def tema_reports_def split: sum.splits exn.splits)

lemma extrair_links_eq:
  assumes "driver y = Inr c"
  shows "extrair_links_provas_e_gabaritos decomp driver y R
     = (if tema_try c y = Inl OtherException
        then (Inr (category_links decomp c y regular_d1 @ category_links decomp c y regular_d2
                   @ category_links decomp c y digital_d1 @ category_links decomp c y digital_d2),
              R @ category_reports decomp c y regular_d1 @ category_reports decomp c y regular_d2
                @ category_reports decomp c y digital_d1 @ category_reports decomp c y digital_d2
                @ [YearError y])
        else (Inr (category_links decomp c y regular_d1 @ category_links decomp c y regular_d2
                   @ category_links decomp c y digital_d1 @ category_links decomp c y digital_d2
                   @ tema_links c y
                   @ category_links decomp c y reaplicacao_d1 @ category_links decomp c y reaplicacao_d2),
              R @ category_reports decomp c y regular_d1 @ category_reports decomp c y regular_d2
                @ category_reports decomp c y digital_d1 @ category_reports decomp c y digital_d2
                @ tema_reports c y
                @ category_reports decomp c y reaplicacao_d1 @ category_reports decomp c y reaplicacao_d2))"
  using assms
  by (simp add: extrair_links_provas_e_gabaritos_def try_block_def extend_step_eq tema_step_eq)

lemma tema_links_tipos: "subseq (map tipo (tema_links c y)) [ascii ''reaplicacao_redacao'']"
  by (auto simp: tema_links_def tema_try_def split: sum.splits)

lemma subseq_links:
  assumes "subseq (map tipo T) [ascii ''reaplicacao_redacao'']"
    and "subseq (map tipo U) (tipos_of reaplicacao_d1)"
    and "subseq (map tipo V) (tipos_of reaplicacao_d2)"
  shows "subseq (map tipo (category_links decomp c y regular_d1 @ category_links decomp c y regular_d2
                   @ category_links decomp c y digital_d1 @ category_links decomp c y digital_d2
                   @ T @ U @ V))
           source_tipo_order"
  unfolding source_tipo_order_def map_append
  by (intro list_emb_append_mono category_links_tipos assms)

lemma tipos_of_last: "t \<in> set (tipos_of cat) \<Longrightarrow> last t = 108"
  by (auto simp: tipos_of_def ascii_def)

lemma category_links_tipo_mem:
  assumes "l \<in> set (category_links decomp c y cat)"
  shows "tipo l \<in> set (tipos_of cat)"
proof -
  obtain p g where "fst (extrair_prova_gabarito_links decomp c (description cat)
      (keywords_to_match cat) y (tipo_base cat) [])
     = Inr ((if truthy p then [prova_record y (tipo_base cat) p] else [])
            @ (if truthy g then [gabarito_record y (tipo_base cat) g] else []))"
    using helper_returns by blast
  then have "category_links decomp c y cat
      = (if truthy p then [prova_record y (tipo_base cat) p] else [])
        @ (if truthy g then [gabarito_record y (tipo_base cat) g] else [])"
    by (simp add: category_links_def)
  with assms have "l = prova_record y (tipo_base cat) p \<or> l = gabarito_record y (tipo_base cat) g"
    by (auto split: if_splits)
  then show ?thesis
    by (auto simp: tipos_of_def prova_record_def gabarito_record_def)
qed

lemma category_tipo_not_redacao:
  "ascii ''reaplicacao_redacao'' \<notin> set (map tipo (category_links decomp c y cat))"
proof
  assume "ascii ''reaplicacao_redacao'' \<in> set (map tipo (category_links decomp c y cat))"
  then obtain l where "l \<in> set (category_links decomp c y cat)" "tipo l = ascii ''reaplicacao_redacao''"
    by auto
  then have "ascii ''reaplicacao_redacao'' \<in> set (tipos_of cat)"
    using category_links_tipo_mem [of l decomp c y cat] by simp
  then have "last (ascii ''reaplicacao_redacao'') = 108" by (rule tipos_of_last)
  then show False by (simp add: ascii_def)
qed

lemma tema_try_found:
  "\<not> faulty (el c) \<Longrightarrow> tema_anchors c = a # rest \<Longrightarrow> \<not> faulty a
    \<Longrightarrow> tema_try c y = Inr \<lparr>ano = y, tipo = ascii ''reaplicacao_redacao'', url = href a\<rparr>"
  by (simp add: tema_try_def find_element_tema_def get_href_def)

lemma tema_try_not_found:
  "\<not> faulty (el c) \<Longrightarrow> tema_anchors c = [] \<Longrightarrow> tema_try c y = Inl NoSuchElementException"
  by (simp add: tema_try_def find_element_tema_def)

text \<open>
  C4 (as amended). The extraction of a year runs exactly seven steps in the fixed order
  regular day 1, regular day 2, digital day 1, digital day 2, essay theme, re-application
  day 1, re-application day 2, and the records it returns appear in that order of their
  groups. Only the essay theme bypasses the callout protocol: it is the first anchor below
  the container whose string-value contains the label, whatever the callouts are, and a
  record for it appears when there is such an anchor and does not when there is none (on a
  container and an anchor that answer the commands). Unless the essay-theme lookup meets
  an unexpected error, the records returned are those of the seven groups, one group after
  the other in that order.
\<close>

theorem extraction_order:
  assumes d: "driver y = Inr c"
  shows "length (try_block decomp c y) = 7
   \<and> (\<exists>ls R'. extrair_links_provas_e_gabaritos decomp driver y R = (Inr ls, R')
        \<and> subseq (map tipo ls) source_tipo_order
        \<and> (\<forall>a rest. \<not> faulty (el c) \<and> tema_anchors c = a # rest \<and> \<not> faulty a
              \<longrightarrow> \<lparr>ano = y, tipo = ascii ''reaplicacao_redacao'', url = href a\<rparr> \<in> set ls)
        \<and> (\<not> faulty (el c) \<and> tema_anchors c = []
              \<longrightarrow> ascii ''reaplicacao_redacao'' \<notin> set (map tipo ls))
        \<and> (tema_try c y \<noteq> Inl OtherException
              \<longrightarrow> ls = category_links decomp c y regular_d1 @ category_links decomp c y regular_d2
                     @ category_links decomp c y digital_d1 @ category_links decomp c y digital_d2
                     @ tema_links c y
                     @ category_links decomp c y reaplicacao_d1 @ category_links decomp c y reaplicacao_d2))"
proof -
  let ?A = "category_links decomp c y regular_d1 @ category_links decomp c y regular_d2
            @ category_links decomp c y digital_d1 @ category_links decomp c y digital_d2"
  let ?U = "category_links decomp c y reaplicacao_d1"
  let ?V = "category_links decomp c y reaplicacao_d2"
  note eq = extrair_links_eq [of driver y c decomp R, OF d]
  have len: "length (try_block decomp c y) = 7" by (simp add: try_block_def)
  have nr: "ascii ''reaplicacao_redacao'' \<notin> set (map tipo (category_links decomp c y cat))" for cat
    by (rule category_tipo_not_redacao)
  have main: "\<exists>ls R'. extrair_links_provas_e_gabaritos decomp driver y R = (Inr ls, R')
        \<and> subseq (map tipo ls) source_tipo_order
        \<and> (\<forall>a rest. \<not> faulty (el c) \<and> tema_anchors c = a # rest \<and> \<not> faulty a
              \<longrightarrow> \<lparr>ano = y, tipo = ascii ''reaplicacao_redacao'', url = href a\<rparr> \<in> set ls)
        \<and> (\<not> faulty (el c) \<and> tema_anchors c = []
              \<longrightarrow> ascii ''reaplicacao_redacao'' \<notin> set (map tipo ls))
        \<and> (tema_try c y \<noteq> Inl OtherException
              \<longrightarrow> ls = category_links decomp c y regular_d1 @ category_links decomp c y regular_d2
                     @ category_links decomp c y digital_d1 @ category_links decomp c y digital_d2
                     @ tema_links c y
                     @ category_links decomp c y reaplicacao_d1 @ category_links decomp c y reaplicacao_d2)"
  proof (cases "tema_try c y = Inl OtherException")
    case True
    let ?ls = "?A"
    obtain R' where e: "extrair_links_provas_e_gabaritos decomp driver y R = (Inr ?ls, R')"
      using True by (simp add: eq)
    have s: "subseq (map tipo ?ls) source_tipo_order"
      using subseq_links [of "[]" "[]" "[]" decomp c y] by simp
    have f: "\<forall>a rest. \<not> faulty (el c) \<and> tema_anchors c = a # rest \<and> \<not> faulty a
              \<longrightarrow> \<lparr>ano = y, tipo = ascii ''reaplicacao_redacao'', url = href a\<rparr> \<in> set ?ls"
    proof (intro allI impI)
      fix a rest assume "\<not> faulty (el c) \<and> tema_anchors c = a # rest \<and> \<not> faulty a"
      then have "tema_try c y = Inr \<lparr>ano = y, tipo = ascii ''reaplicacao_redacao'', url = href a\<rparr>"
        by (intro tema_try_found) simp_all
      with True show "\<lparr>ano = y, tipo = ascii ''reaplicacao_redacao'', url = href a\<rparr> \<in> set ?ls"
        by simp
    qed
    have n: "\<not> faulty (el c) \<and> tema_anchors c = []
              \<longrightarrow> ascii ''reaplicacao_redacao'' \<notin> set (map tipo ?ls)"
      using nr [of regular_d1] nr [of regular_d2] nr [of digital_d1] nr [of digital_d2] by simp
    have x: "tema_try c y \<noteq> Inl OtherException
              \<longrightarrow> ?ls = category_links decomp c y regular_d1 @ category_links decomp c y regular_d2
                     @ category_links decomp c y digital_d1 @ category_links decomp c y digital_d2
                     @ tema_links c y
                     @ category_links decomp c y reaplicacao_d1 @ category_links decomp c y reaplicacao_d2"
      using True by simp
    from e s f n x show ?thesis by (intro exI [of _ ?ls] exI [of _ R'] conjI)
  next
    case False
    let ?ls = "?A @ tema_links c y @ ?U @ ?V"
    obtain R' where e: "extrair_links_provas_e_gabaritos decomp driver y R = (Inr ?ls, R')"
      using False by (simp add: eq)
    have s: "subseq (map tipo ?ls) source_tipo_order"
      using subseq_links [OF tema_links_tipos [of c y]
          category_links_tipos [of decomp c y reaplicacao_d1]
          category_links_tipos [of decomp c y reaplicacao_d2], of decomp c y]
      by simp
    have f: "\<forall>a rest. \<not> faulty (el c) \<and> tema_anchors c = a # rest \<and> \<not> faulty a
              \<longrightarrow> \<lparr>ano = y, tipo = ascii ''reaplicacao_redacao'', url = href a\<rparr> \<in> set ?ls"
    proof (intro allI impI)
      fix a rest assume "\<not> faulty (el c) \<and> tema_anchors c = a # rest \<and> \<not> faulty a"
      then have "tema_try c y = Inr \<lparr>ano = y, tipo = ascii ''reaplicacao_redacao'', url = href a\<rparr>"
        by (intro tema_try_found) simp_all
      then have "tema_links c y = [\<lparr>ano = y, tipo = ascii ''reaplicacao_redacao'', url = href a\<rparr>]"
        by (simp add: tema_links_def)
      then show "\<lparr>ano = y, tipo = ascii ''reaplicacao_redacao'', url = href a\<rparr> \<in> set ?ls"
        by simp
    qed
    have n: "\<not> faulty (el c) \<and> tema_anchors c = []
              \<longrightarrow> ascii ''reaplicacao_redacao'' \<notin> set (map tipo ?ls)"
    proof
      assume "\<not> faulty (el c) \<and> tema_anchors c = []"
      then have "tema_try c y = Inl NoSuchElementException" by (intro tema_try_not_found) simp_all
      then have "tema_links c y = []" by (simp add: tema_links_def)
      then show "ascii ''reaplicacao_redacao'' \<notin> set (map tipo ?ls)"
        using nr [of regular_d1] nr [of regular_d2] nr [of digital_d1] nr [of digital_d2]
          nr [of reaplicacao_d1] nr [of reaplicacao_d2]
        by simp
    qed
    have x: "tema_try c y \<noteq> Inl OtherException
              \<longrightarrow> ?ls = category_links decomp c y regular_d1 @ category_links decomp c y regular_d2
                     @ category_links decomp c y digital_d1 @ category_links decomp c y digital_d2
                     @ tema_links c y
                     @ category_links decomp c y reaplicacao_d1 @ category_links decomp c y reaplicacao_d2"
      by simp
    from e s f n x show ?thesis by (intro exI [of _ ?ls] exI [of _ R'] conjI)
  qed
  from len main show ?thesis by (rule conjI)
qed
lemma normalize_label_reaplicacao_d1:
  "normalizar_texto_para_comparacao latin1_decomp (Some label_reaplicacao_d1)
     = ascii ''1 dia caderno 1 azul reaplicacao ppl''"
  by (simp add: normalize_eval label_reaplicacao_d1_def reaplicacao_ppl_def latin1_decomp_def
      latin1_table_def)

lemma matches_reaplicacao_label:
  "\<not> matches latin1_decomp (keywords_to_match regular_d1) label_reaplicacao_d1"
  "\<not> matches latin1_decomp (keywords_to_match regular_d2) label_reaplicacao_d1"
  "\<not> matches latin1_decomp (keywords_to_match digital_d1) label_reaplicacao_d1"
  "\<not> matches latin1_decomp (keywords_to_match digital_d2) label_reaplicacao_d1"
  "matches latin1_decomp (keywords_to_match reaplicacao_d1) label_reaplicacao_d1"
  "\<not> matches latin1_decomp (keywords_to_match reaplicacao_d2) label_reaplicacao_d1"
  by (simp_all add: matches_def normalize_label_reaplicacao_d1 regular_d1_def regular_d2_def
      digital_d1_def digital_d2_def reaplicacao_d1_def reaplicacao_d2_def, simp_all add: ascii_def)

lemma callouts_page_reaplicacao:
  "callouts page_reaplicacao
     = [\<lparr>el = callout_node label_reaplicacao_d1,
         fsibs = [list_node ''ul'' [anchor_node (ascii ''Prova'') (Some (ascii ''rp1.pdf'')),
                                   anchor_node (ascii ''Gabarito'') (Some (ascii ''rg1.pdf''))]],
         parent_fsibs = []\<rparr>]"
  by (simp add: callouts_def page_reaplicacao_def group_reaplicacao_d1_def page_eval)


lemma helper_on_reaplicacao_group:
  assumes nf: "\<not> faulty (el P)"
    and cs: "callouts P
     = [\<lparr>el = callout_node label_reaplicacao_d1,
         fsibs = [list_node ''ul'' [anchor_node (ascii ''Prova'') (Some (ascii ''rp1.pdf'')),
                                   anchor_node (ascii ''Gabarito'') (Some (ascii ''rg1.pdf''))]],
         parent_fsibs = []\<rparr>]"
  shows "extrair_prova_gabarito_links latin1_decomp P d kws y tb []
     = (if matches latin1_decomp kws label_reaplicacao_d1
        then (Inr [prova_record y tb (Some (ascii ''rp1.pdf'')),
                   gabarito_record y tb (Some (ascii ''rg1.pdf''))], [])
        else (Inr [], [PatternNotFound d kws y]))"
proof (cases "matches latin1_decomp kws label_reaplicacao_d1")
  case False
  then have "locate_callout latin1_decomp P kws = Inl NoSuchElementException"
    using nf by (simp add: locate_callout_def find_elements_p_callout_def cs node_text_def callout_node_def)
  then show ?thesis using False
    by (simp add: extrair_prova_gabarito_links_def extrair_try_def)
next
  case True
  then have l: "locate_callout latin1_decomp P kws
      = Inr \<lparr>el = callout_node label_reaplicacao_d1,
         fsibs = [list_node ''ul'' [anchor_node (ascii ''Prova'') (Some (ascii ''rp1.pdf'')),
                                   anchor_node (ascii ''Gabarito'') (Some (ascii ''rg1.pdf''))]],
         parent_fsibs = []\<rparr>"
    using nf by (simp add: locate_callout_def find_elements_p_callout_def cs node_text_def callout_node_def)
  have h: "find_elements_xpath_links \<lparr>el = callout_node label_reaplicacao_d1,
         fsibs = [list_node ''ul'' [anchor_node (ascii ''Prova'') (Some (ascii ''rp1.pdf'')),
                                   anchor_node (ascii ''Gabarito'') (Some (ascii ''rg1.pdf''))]],
         parent_fsibs = []\<rparr>
     = Inr [anchor_node (ascii ''Prova'') (Some (ascii ''rp1.pdf'')),
            anchor_node (ascii ''Gabarito'') (Some (ascii ''rg1.pdf''))]"
    by (simp add: find_elements_xpath_links_def xpath_links_closed_form_Suc
        sibling_links_def anchors_list_node tag_list_node)
      (simp add: callout_node_def)
  have c: "classify_loop latin1_decomp
      [anchor_node (ascii ''Prova'') (Some (ascii ''rp1.pdf'')),
       anchor_node (ascii ''Gabarito'') (Some (ascii ''rg1.pdf''))] None None
      = Inr (Some (ascii ''rp1.pdf''), Some (ascii ''rg1.pdf''))"
    by (simp add: assign_link_ok anchor_sel anchor_kinds truthy_eval)
  show ?thesis using True
    by (simp only: extrair_prova_gabarito_links_def extrair_try_def l h classify_links_def c sum.case)
      (simp add: emit_form truthy_eval)
qed

lemma tema_label_in: "py_in tema_label label_tema"
  by (simp add: tema_label_def label_tema_def ascii_def)

lemma tema_label_not_in:
  "\<not> py_in tema_label label_reaplicacao_d1" "\<not> py_in tema_label (ascii ''Prova'')"
  "\<not> py_in tema_label (ascii ''Gabarito'')" "\<not> py_in tema_label []"
  by (simp_all add: tema_label_def label_reaplicacao_d1_def reaplicacao_ppl_def ascii_def)

lemma tema_try_page_reaplicacao:
  "tema_try page_reaplicacao y
     = Inr \<lparr>ano = y, tipo = ascii ''reaplicacao_redacao'', url = Some (ascii ''tema.pdf'')\<rparr>"
  by (simp add: tema_try_def find_element_tema_def tema_anchors_def page_reaplicacao_def
      group_reaplicacao_d1_def page_eval get_href_def tema_label_in tema_label_not_in)


lemma category_page_reaplicacao:
  "category_links latin1_decomp page_reaplicacao y regular_d1 = []"
  "category_links latin1_decomp page_reaplicacao y regular_d2 = []"
  "category_links latin1_decomp page_reaplicacao y digital_d1 = []"
  "category_links latin1_decomp page_reaplicacao y digital_d2 = []"
  "category_links latin1_decomp page_reaplicacao y reaplicacao_d1
     = [prova_record y (tipo_base reaplicacao_d1) (Some (ascii ''rp1.pdf'')),
        gabarito_record y (tipo_base reaplicacao_d1) (Some (ascii ''rg1.pdf''))]"
  "category_links latin1_decomp page_reaplicacao y reaplicacao_d2 = []"
proof -
  have nf: "\<not> faulty (el page_reaplicacao)" by (simp add: page_reaplicacao_def)
  note h = helper_on_reaplicacao_group [OF nf callouts_page_reaplicacao]
  show "category_links latin1_decomp page_reaplicacao y regular_d1 = []"
    "category_links latin1_decomp page_reaplicacao y regular_d2 = []"
    "category_links latin1_decomp page_reaplicacao y digital_d1 = []"
    "category_links latin1_decomp page_reaplicacao y digital_d2 = []"
    "category_links latin1_decomp page_reaplicacao y reaplicacao_d1
       = [prova_record y (tipo_base reaplicacao_d1) (Some (ascii ''rp1.pdf'')),
          gabarito_record y (tipo_base reaplicacao_d1) (Some (ascii ''rg1.pdf''))]"
    "category_links latin1_decomp page_reaplicacao y reaplicacao_d2 = []"
    by (simp_all add: category_links_def h matches_reaplicacao_label)
qed


lemma links_page_reaplicacao:
  "fst (extrair_links_provas_e_gabaritos latin1_decomp (\<lambda>y. Inr page_reaplicacao) (ascii ''2023'') [])
     = Inr [\<lparr>ano = ascii ''2023'', tipo = ascii ''reaplicacao_redacao'', url = Some (ascii ''tema.pdf'')\<rparr>,
            prova_record (ascii ''2023'') (tipo_base reaplicacao_d1) (Some (ascii ''rp1.pdf'')),
            gabarito_record (ascii ''2023'') (tipo_base reaplicacao_d1) (Some (ascii ''rg1.pdf''))]"
  by (subst extrair_links_eq [of _ _ page_reaplicacao])
    (simp_all add: tema_try_page_reaplicacao category_page_reaplicacao tema_links_def)

lemma tipos_page_reaplicacao:
  "map tipo [\<lparr>ano = ascii ''2023'', tipo = ascii ''reaplicacao_redacao'', url = Some (ascii ''tema.pdf'')\<rparr>,
            prova_record (ascii ''2023'') (tipo_base reaplicacao_d1) (Some (ascii ''rp1.pdf'')),
            gabarito_record (ascii ''2023'') (tipo_base reaplicacao_d1) (Some (ascii ''rg1.pdf''))]
     = [ascii ''reaplicacao_redacao'', ascii ''reaplicacao_d1_prova_azul'',
        ascii ''reaplicacao_d1_gabarito_azul'']"
  by (simp add: prova_record_def gabarito_record_def reaplicacao_d1_def ascii_def)

lemma spec_tipo_order_eval:
  "spec_tipo_order
     = [ascii ''regular_d1_prova_azul'', ascii ''regular_d1_gabarito_azul'',
        ascii ''regular_d2_prova_azul'', ascii ''regular_d2_gabarito_azul'',
        ascii ''digital_d1_prova_azul'', ascii ''digital_d1_gabarito_azul'',
        ascii ''digital_d2_prova_azul'', ascii ''digital_d2_gabarito_azul'',
        ascii ''reaplicacao_d1_prova_azul'', ascii ''reaplicacao_d1_gabarito_azul'',
        ascii ''reaplicacao_d2_prova_azul'', ascii ''reaplicacao_d2_gabarito_azul'',
        ascii ''reaplicacao_redacao'']"
  by (simp add: spec_tipo_order_def tipos_of_def regular_d1_def regular_d2_def digital_d1_def
      digital_d2_def reaplicacao_d1_def reaplicacao_d2_def ascii_def)

text \<open>
  The claim as stated fails on a tab with an essay-theme link and a re-application group:
  the essay-theme record comes before the re-application records, not after them.
\<close>

theorem extraction_order_counterexample:
  "fst (extrair_links_provas_e_gabaritos latin1_decomp (\<lambda>y. Inr page_reaplicacao) (ascii ''2023'') [])
     = Inr [\<lparr>ano = ascii ''2023'', tipo = ascii ''reaplicacao_redacao'', url = Some (ascii ''tema.pdf'')\<rparr>,
            prova_record (ascii ''2023'') (tipo_base reaplicacao_d1) (Some (ascii ''rp1.pdf'')),
            gabarito_record (ascii ''2023'') (tipo_base reaplicacao_d1) (Some (ascii ''rg1.pdf''))]
   \<and> \<not> subseq
       (map tipo [\<lparr>ano = ascii ''2023'', tipo = ascii ''reaplicacao_redacao'', url = Some (ascii ''tema.pdf'')\<rparr>,
            prova_record (ascii ''2023'') (tipo_base reaplicacao_d1) (Some (ascii ''rp1.pdf'')),
            gabarito_record (ascii ''2023'') (tipo_base reaplicacao_d1) (Some (ascii ''rg1.pdf''))])
       spec_tipo_order"
proof -
  have "\<not> subseq [ascii ''reaplicacao_redacao'', ascii ''reaplicacao_d1_prova_azul'',
        ascii ''reaplicacao_d1_gabarito_azul''] spec_tipo_order"
    unfolding spec_tipo_order_eval by (simp add: ascii_def)
  then show ?thesis using links_page_reaplicacao by (simp only: tipos_page_reaplicacao) simp
qed

theorem extraction_order_witness:
  "length (try_block latin1_decomp page_reaplicacao (ascii ''2023'')) = 7
   \<and> fst (extrair_links_provas_e_gabaritos latin1_decomp (\<lambda>y. Inr page_reaplicacao) (ascii ''2023'') [])
     = Inr [\<lparr>ano = ascii ''2023'', tipo = ascii ''reaplicacao_redacao'', url = Some (ascii ''tema.pdf'')\<rparr>,
            prova_record (ascii ''2023'') (tipo_base reaplicacao_d1) (Some (ascii ''rp1.pdf'')),
            gabarito_record (ascii ''2023'') (tipo_base reaplicacao_d1) (Some (ascii ''rg1.pdf''))]
   \<and> subseq (map tipo
         [\<lparr>ano = ascii ''2023'', tipo = ascii ''reaplicacao_redacao'', url = Some (ascii ''tema.pdf'')\<rparr>,
          prova_record (ascii ''2023'') (tipo_base reaplicacao_d1) (Some (ascii ''rp1.pdf'')),
          gabarito_record (ascii ''2023'') (tipo_base reaplicacao_d1) (Some (ascii ''rg1.pdf''))])
       source_tipo_order
   \<and> \<lparr>ano = ascii ''2023'', tipo = ascii ''reaplicacao_redacao'',
        url = href (anchor_node label_tema (Some (ascii ''tema.pdf'')))\<rparr>
     \<in> set [\<lparr>ano = ascii ''2023'', tipo = ascii ''reaplicacao_redacao'', url = Some (ascii ''tema.pdf'')\<rparr>,
          prova_record (ascii ''2023'') (tipo_base reaplicacao_d1) (Some (ascii ''rp1.pdf'')),
          gabarito_record (ascii ''2023'') (tipo_base reaplicacao_d1) (Some (ascii ''rg1.pdf''))]"
proof -
  have d: "(\<lambda>y. Inr page_reaplicacao) (ascii ''2023'') = (Inr page_reaplicacao :: exn + element)"
    by simp
  note t = extraction_order [of "\<lambda>y. Inr page_reaplicacao" "ascii ''2023''" page_reaplicacao
      latin1_decomp "[]", OF d]
  from t [THEN conjunct2] obtain ls where
    "\<exists>R'. extrair_links_provas_e_gabaritos latin1_decomp (\<lambda>y. Inr page_reaplicacao) (ascii ''2023'') []
          = (Inr ls, R')
        \<and> subseq (map tipo ls) source_tipo_order
        \<and> (\<forall>a rest. \<not> faulty (el page_reaplicacao) \<and> tema_anchors page_reaplicacao = a # rest
               \<and> \<not> faulty a
              \<longrightarrow> \<lparr>ano = ascii ''2023'', tipo = ascii ''reaplicacao_redacao'', url = href a\<rparr> \<in> set ls)
        \<and> (\<not> faulty (el page_reaplicacao) \<and> tema_anchors page_reaplicacao = []
              \<longrightarrow> ascii ''reaplicacao_redacao'' \<notin> set (map tipo ls))
        \<and> (tema_try page_reaplicacao (ascii ''2023'') \<noteq> Inl OtherException
              \<longrightarrow> ls = category_links latin1_decomp page_reaplicacao (ascii ''2023'') regular_d1
                     @ category_links latin1_decomp page_reaplicacao (ascii ''2023'') regular_d2
                     @ category_links latin1_decomp page_reaplicacao (ascii ''2023'') digital_d1
                     @ category_links latin1_decomp page_reaplicacao (ascii ''2023'') digital_d2
                     @ tema_links page_reaplicacao (ascii ''2023'')
                     @ category_links latin1_decomp page_reaplicacao (ascii ''2023'') reaplicacao_d1
                     @ category_links latin1_decomp page_reaplicacao (ascii ''2023'') reaplicacao_d2)" ..
  then obtain R' where A:
    "extrair_links_provas_e_gabaritos latin1_decomp (\<lambda>y. Inr page_reaplicacao) (ascii ''2023'') []
          = (Inr ls, R')
        \<and> subseq (map tipo ls) source_tipo_order
        \<and> (\<forall>a rest. \<not> faulty (el page_reaplicacao) \<and> tema_anchors page_reaplicacao = a # rest
               \<and> \<not> faulty a
              \<longrightarrow> \<lparr>ano = ascii ''2023'', tipo = ascii ''reaplicacao_redacao'', url = href a\<rparr> \<in> set ls)
        \<and> (\<not> faulty (el page_reaplicacao) \<and> tema_anchors page_reaplicacao = []
              \<longrightarrow> ascii ''reaplicacao_redacao'' \<notin> set (map tipo ls))
        \<and> (tema_try page_reaplicacao (ascii ''2023'') \<noteq> Inl OtherException
              \<longrightarrow> ls = category_links latin1_decomp page_reaplicacao (ascii ''2023'') regular_d1
                     @ category_links latin1_decomp page_reaplicacao (ascii ''2023'') regular_d2
                     @ category_links latin1_decomp page_reaplicacao (ascii ''2023'') digital_d1
                     @ category_links latin1_decomp page_reaplicacao (ascii ''2023'') digital_d2
                     @ tema_links page_reaplicacao (ascii ''2023'')
                     @ category_links latin1_decomp page_reaplicacao (ascii ''2023'') reaplicacao_d1
                     @ category_links latin1_decomp page_reaplicacao (ascii ''2023'') reaplicacao_d2)" ..
  note e = A [THEN conjunct1] and s = A [THEN conjunct2, THEN conjunct1]
    and f = A [THEN conjunct2, THEN conjunct2, THEN conjunct1]
  have ta: "\<not> faulty (el page_reaplicacao)
      \<and> tema_anchors page_reaplicacao = anchor_node label_tema (Some (ascii ''tema.pdf'')) # []
      \<and> \<not> faulty (anchor_node label_tema (Some (ascii ''tema.pdf'')))"
    by (simp add: tema_anchors_def page_reaplicacao_def group_reaplicacao_d1_def page_eval
        tema_label_in tema_label_not_in)
  note m = f [rule_format, OF ta]
  have "Inr ls = fst (extrair_links_provas_e_gabaritos latin1_decomp (\<lambda>y. Inr page_reaplicacao)
      (ascii ''2023'') [])"
    by (simp only: e fst_conv)
  then have ls: "ls = [\<lparr>ano = ascii ''2023'', tipo = ascii ''reaplicacao_redacao'', url = Some (ascii ''tema.pdf'')\<rparr>,
            prova_record (ascii ''2023'') (tipo_base reaplicacao_d1) (Some (ascii ''rp1.pdf'')),
            gabarito_record (ascii ''2023'') (tipo_base reaplicacao_d1) (Some (ascii ''rg1.pdf''))]"
    by (simp only: links_page_reaplicacao sum.inject)
  from t [THEN conjunct1] links_page_reaplicacao s [unfolded ls] m [unfolded ls]
  show ?thesis by (intro conjI)
qed

section \<open>Failures during the extraction of a year\<close>







end
